theory Spec2Isabelle
  imports Main
begin

section \<open>The data model of cprompt\<close>

text \<open>
  The program renders a shell prompt from the array \<open>prompt\<close> of
  \<open>user_config.h\<close>: every element is resolved to a C string together with
  the flag \<open>needs_free\<close>, the strings are printed, and the strings flagged
  \<open>needs_free\<close> are handed to \<open>free\<close>.

  The repository holds the program in two revisions. The theory follows
  the one that comes with the configuration in \<open>src/user_config.h\<close> (lines
  35 to 583; the line numbers below refer to that file): its resolvers fill
  a \<open>struct prompt_string\<close> and check the result of \<open>malloc\<close>. In the
  earlier revision, \<open>src/unnamed/part_000\<close>, the resolvers return the
  string, report the flag through a pointer and do not check \<open>malloc\<close>;
  of that revision the error helper is modelled, as \<open>format_error_part_000\<close>.
\<close>

datatype PromptElementType =
    StringLiteral | Space | Bell | HostnameUpToDot | FullHostname | TtyBasename
  | ShellName | WeekMonthDay | StrftimeDate | HourMinuteSecond24 | HourMinuteSecond12
  | TimeAmPm | HourMinute24 | Username | PwdTrunc | PwdTruncBasename | UserPrompt

text \<open>\<open>arg\<close> is a \<open>void*\<close> that is either \<open>NULL\<close> or points to a string literal.\<close>

record PromptElement =
  type :: PromptElementType
  arg :: "string option"

text \<open>
  A \<open>char*\<close> of the program is \<open>NULL\<close>, the address of a string that lives
  as long as the process (a literal, an entry of the environment, the static
  buffer of \<open>ttyname\<close>), or the address of a block obtained from \<open>malloc\<close>.
\<close>

datatype ptr = Null | Static string | Heap nat

record prompt_string =
  str :: ptr
  needs_free :: bool

text \<open>What the C code leaves undefined is a fault of the model.\<close>

datatype fault = NullDeref | OutOfBounds | InvalidFree | Dangling

section \<open>The platform, the operating system and the process state\<close>

text \<open>
  What \<open>config.h\<close> and the system headers fix at build time:
  \<open>HAVE_STRERRORNAME_NP\<close> with the function \<open>strerrorname_np\<close> itself,
  \<open>__APPLE__\<close>, \<open>PATH_MAX\<close> and \<open>PROC_PIDPATHINFO_MAXSIZE\<close>.
  \<open>strerrorname_np\<close> returns \<open>NULL\<close>, here \<open>None\<close>, for an error code that
  has no name.
\<close>

record platform =
  HAVE_STRERRORNAME_NP :: bool
  strerrorname_np :: "int \<Rightarrow> string option"
  APPLE :: bool
  PATH_MAX :: nat
  PROC_PIDPATHINFO_MAXSIZE :: nat

text \<open>
  The answer of a library call: \<open>Answer v\<close> returns \<open>v\<close> and leaves
  \<open>errno\<close> alone, \<open>Failed e\<close> returns the failure value of the call
  (\<open>-1\<close>, \<open>0\<close> or \<open>NULL\<close>) and sets \<open>errno\<close> to \<open>e\<close>.
\<close>

datatype 'a answer = Answer 'a | Failed int

datatype sysconf_name = SC_HOST_NAME_MAX | SC_GETPW_R_SIZE_MAX

record passwd =
  pw_name :: string
  pw_dir :: string

text \<open>
  \<open>getpwuid_r\<close> returns an error number instead of setting \<open>errno\<close>;
  whether it also sets \<open>errno\<close> is left open by POSIX, hence the option.
\<close>

datatype pw_answer = PwError int "int option" | PwNotFound | PwEntry passwd

text \<open>
  The operating system as one run of the program sees it. \<open>os_malloc k\<close>
  tells whether the \<open>k\<close>-th allocation request of the run (counted from 0,
  \<open>strndup\<close> included) is granted. \<open>os_strftime fmt t\<close> is the full
  expansion of the pattern for the local time of the clock value \<open>t\<close>.
\<close>

record os =
  os_malloc :: "nat \<Rightarrow> bool"
  os_time :: "int answer"
  os_strftime :: "string \<Rightarrow> int \<Rightarrow> string"
  os_sysconf :: "sysconf_name \<Rightarrow> int answer"
  os_gethostname :: "nat \<Rightarrow> string answer"
  os_isatty :: "unit answer"
  os_ttyname :: "string answer"
  os_basename_r :: "string \<Rightarrow> string answer"
  os_getppid :: nat
  os_proc_pidpath :: "nat \<Rightarrow> nat \<Rightarrow> string answer"
  os_getuid :: nat
  os_geteuid :: nat
  os_getpwuid_r :: "nat \<Rightarrow> nat \<Rightarrow> pw_answer"
  os_getenv :: "string \<Rightarrow> string option"
  os_getcwd :: "string answer"

text \<open>
  The state of the process: \<open>errno\<close>, the heap (the live blocks with the
  string each holds), the number of allocation requests made so far (the next
  block gets this number as its address), the blocks released so far in the
  order of the calls of \<open>free\<close>, and what was written to standard output.
\<close>

record proc =
  errno :: int
  heap :: "nat \<rightharpoonup> string"
  brk :: nat
  freed :: "nat list"
  stdout :: string

definition ENOMEM :: int where "ENOMEM = 12"
definition ERANGE :: int where "ERANGE = 34"
definition MAX_STRFTIME_SIZE :: nat where "MAX_STRFTIME_SIZE = 50"

definition HOME_DIR_FAILED_MESSAGE_NO_ALLOC :: int where "HOME_DIR_FAILED_MESSAGE_NO_ALLOC = -2"
definition HOME_DIR_FAILED_MESSAGE_ALLOC :: int where "HOME_DIR_FAILED_MESSAGE_ALLOC = -1"
definition HOME_DIR_NO_ALLOC :: int where "HOME_DIR_NO_ALLOC = 0"
definition HOME_DIR_ALLOC :: int where "HOME_DIR_ALLOC = 1"

subsection \<open>The allocator\<close>

definition malloc :: "os \<Rightarrow> proc \<Rightarrow> ptr \<times> proc" where
  "malloc os st =
     (if os_malloc os (brk st)
      then (Heap (brk st), st\<lparr>heap := (heap st)(brk st \<mapsto> []), brk := Suc (brk st)\<rparr>)
      else (Null, st\<lparr>errno := ENOMEM, brk := Suc (brk st)\<rparr>))"

text \<open>
  \<open>free(NULL)\<close> does nothing; releasing a string that was not allocated, or
  a block a second time, is undefined.
\<close>

definition free :: "ptr \<Rightarrow> proc \<Rightarrow> fault + proc" where
  "free p st =
     (case p of
        Null \<Rightarrow> Inr st
      | Static s \<Rightarrow> Inl InvalidFree
      | Heap a \<Rightarrow>
          (if a \<in> dom (heap st)
           then Inr (st\<lparr>heap := (heap st)(a := None), freed := freed st @ [a]\<rparr>)
           else Inl InvalidFree))"

text \<open>Reading the string a pointer refers to.\<close>

definition deref :: "ptr \<Rightarrow> proc \<Rightarrow> fault + string" where
  "deref p st =
     (case p of
        Null \<Rightarrow> Inl NullDeref
      | Static s \<Rightarrow> Inr s
      | Heap a \<Rightarrow> (case heap st a of None \<Rightarrow> Inl Dangling | Some s \<Rightarrow> Inr s))"

definition poke :: "nat \<Rightarrow> string \<Rightarrow> proc \<Rightarrow> proc" where
  "poke a s st = st\<lparr>heap := (heap st)(a \<mapsto> s)\<rparr>"

subsection \<open>The string functions of the C library\<close>

definition strnlen :: "string \<Rightarrow> nat \<Rightarrow> nat" where
  "strnlen s maxlen = min (length s) maxlen"

text \<open>The new contents of \<open>dst\<close> after \<open>strlcpy(dst, src, size)\<close> and \<open>strlcat(dst, src, size)\<close>.\<close>

definition strlcpy :: "string \<Rightarrow> string \<Rightarrow> nat \<Rightarrow> string" where
  "strlcpy dst src dstsize = (if dstsize = 0 then dst else take (dstsize - 1) src)"

definition strlcat :: "string \<Rightarrow> string \<Rightarrow> nat \<Rightarrow> string" where
  "strlcat dst src dstsize =
     (if dstsize \<le> length dst then dst else dst @ take (dstsize - length dst - 1) src)"

definition strndup :: "os \<Rightarrow> string \<Rightarrow> nat \<Rightarrow> proc \<Rightarrow> ptr \<times> proc" where
  "strndup os s n st =
     (case malloc os st of
        (Heap a, st1) \<Rightarrow> (Heap a, poke a (take n s) st1)
      | (p, st1) \<Rightarrow> (Null, st1))"

text \<open>
  \<open>strnstr(big, little, len)\<close>: the offset of the first occurrence of
  \<open>little\<close> within the first \<open>len\<close> characters of \<open>big\<close>; an empty
  \<open>little\<close> is found at offset 0.
\<close>

definition strnstr :: "string \<Rightarrow> string \<Rightarrow> nat \<Rightarrow> nat option" where
  "strnstr big little len =
     (if little = [] then Some 0
      else List.find (\<lambda>i. take (length little) (drop i (take len big)) = little)
             [0 ..< Suc (length (take len big)) - length little])"

subsection \<open>The calls into the operating system\<close>

text \<open>
  Each call is given with the value the C code sees and the state it leaves;
  a buffer argument is the address of the block that receives the string.
\<close>

definition time :: "os \<Rightarrow> proc \<Rightarrow> int \<times> proc" where
  "time os st = (case os_time os of Answer t \<Rightarrow> (t, st) | Failed e \<Rightarrow> (-1, st\<lparr>errno := e\<rparr>))"

text \<open>
  \<open>strftime(s, maxsize, fmt, tm)\<close> returns the number of characters written, and
  0 when the expansion with its terminator does not fit into \<open>maxsize\<close> bytes.
\<close>

definition strftime :: "os \<Rightarrow> nat \<Rightarrow> nat \<Rightarrow> string \<Rightarrow> int \<Rightarrow> proc \<Rightarrow> nat \<times> proc" where
  "strftime os s maxsize fmt clock st =
     (let e = os_strftime os fmt clock
      in if length e < maxsize then (length e, poke s e st) else (0, st))"

definition sysconf :: "os \<Rightarrow> sysconf_name \<Rightarrow> proc \<Rightarrow> int \<times> proc" where
  "sysconf os name st =
     (case os_sysconf os name of Answer n \<Rightarrow> (n, st) | Failed e \<Rightarrow> (-1, st\<lparr>errno := e\<rparr>))"

definition gethostname :: "os \<Rightarrow> nat \<Rightarrow> nat \<Rightarrow> proc \<Rightarrow> int \<times> proc" where
  "gethostname os name len st =
     (case os_gethostname os len of
        Answer h \<Rightarrow> (0, poke name h st)
      | Failed e \<Rightarrow> (-1, st\<lparr>errno := e\<rparr>))"

definition isatty :: "os \<Rightarrow> proc \<Rightarrow> bool \<times> proc" where
  "isatty os st = (case os_isatty os of Answer u \<Rightarrow> (True, st) | Failed e \<Rightarrow> (False, st\<lparr>errno := e\<rparr>))"

definition ttyname :: "os \<Rightarrow> proc \<Rightarrow> ptr \<times> proc" where
  "ttyname os st =
     (case os_ttyname os of Answer t \<Rightarrow> (Static t, st) | Failed e \<Rightarrow> (Null, st\<lparr>errno := e\<rparr>))"

text \<open>\<open>basename_r(path, bname)\<close> returns \<open>bname\<close>, or \<open>NULL\<close> on failure: here whether it is not \<open>NULL\<close>.\<close>

definition basename_r :: "os \<Rightarrow> string \<Rightarrow> nat \<Rightarrow> proc \<Rightarrow> bool \<times> proc" where
  "basename_r os path bname st =
     (case os_basename_r os path of
        Answer b \<Rightarrow> (True, poke bname b st)
      | Failed e \<Rightarrow> (False, st\<lparr>errno := e\<rparr>))"

definition proc_pidpath :: "os \<Rightarrow> nat \<Rightarrow> nat \<Rightarrow> nat \<Rightarrow> proc \<Rightarrow> int \<times> proc" where
  "proc_pidpath os pid buffer buffersize st =
     (case os_proc_pidpath os pid buffersize of
        Answer p \<Rightarrow> (int (length p), poke buffer p st)
      | Failed e \<Rightarrow> (0, st\<lparr>errno := e\<rparr>))"

text \<open>
  \<open>getpwuid_r\<close>: the returned status and \<open>*result\<close>. The strings of the
  entry lie in the scratch buffer, whose contents are not modelled.
\<close>

definition getpwuid_r :: "os \<Rightarrow> nat \<Rightarrow> nat \<Rightarrow> nat \<Rightarrow> proc \<Rightarrow> int \<times> passwd option \<times> proc" where
  "getpwuid_r os uid buf bufsz st =
     (case os_getpwuid_r os uid bufsz of
        PwError status eo \<Rightarrow>
          (status, None, (case eo of None \<Rightarrow> st | Some e \<Rightarrow> st\<lparr>errno := e\<rparr>))
      | PwNotFound \<Rightarrow> (0, None, st)
      | PwEntry pw \<Rightarrow> (0, Some pw, st))"

definition getenv :: "os \<Rightarrow> string \<Rightarrow> ptr" where
  "getenv os name = (case os_getenv os name of None \<Rightarrow> Null | Some v \<Rightarrow> Static v)"

definition NUL :: char where "NUL = CHR 0x00"

text \<open>The string held by a character array: what precedes the first terminator.\<close>

definition cstr :: "string \<Rightarrow> string" where
  "cstr buf = takeWhile (\<lambda>c. c \<noteq> NUL) buf"

text \<open>
  \<open>getcwd(buf, size)\<close> for an array \<open>buf\<close> of \<open>size\<close> characters: the array
  afterwards (the path, then terminators), or \<open>None\<close> for \<open>NULL\<close>. A path
  that does not fit with its terminator fails with \<open>ERANGE\<close>.
\<close>

definition getcwd :: "os \<Rightarrow> nat \<Rightarrow> proc \<Rightarrow> string option \<times> proc" where
  "getcwd os bufsize st =
     (case os_getcwd os of
        Answer d \<Rightarrow>
          (if length d < bufsize then (Some (d @ replicate (bufsize - length d) NUL), st)
           else (None, st\<lparr>errno := ERANGE\<rparr>))
      | Failed e \<Rightarrow> (None, st\<lparr>errno := e\<rparr>))"

section \<open>The resolvers\<close>

subsection \<open>\<open>malloc_or_error\<close> (lines 128-136) and \<open>format_error\<close> (lines 145-166)\<close>

definition malloc_or_error :: "os \<Rightarrow> prompt_string \<Rightarrow> proc \<Rightarrow> ptr \<times> prompt_string \<times> proc" where
  "malloc_or_error os ps st =
     (case malloc os st of (p, st1) \<Rightarrow>
        if p = Null then (p, ps\<lparr>needs_free := False, str := Static ''!MALLOC!''\<rparr>, st1)
        else (p, ps, st1))"

text \<open>
  The result is the returned pointer and the value stored in \<open>*needs_free\<close>.
  The result of \<open>strerrorname_np\<close> goes to \<open>strnlen\<close> without a test (line
  152): for a code without a name that reads through \<open>NULL\<close>.
\<close>

definition format_error ::
    "platform \<Rightarrow> os \<Rightarrow> string \<Rightarrow> int \<Rightarrow> proc \<Rightarrow> fault + ptr \<times> bool \<times> proc" where
  "format_error pf os err_str err st =
     (if HAVE_STRERRORNAME_NP pf then
        (case strerrorname_np pf err of
           None \<Rightarrow> Inl NullDeref
         | Some name \<Rightarrow>
             (let len = 2 + strnlen name 20 in
              case malloc os st of
                (Heap a, st1) \<Rightarrow>
                  (let b1 = strlcpy [] ''!'' len;
                       b2 = strlcat b1 name len;
                       b3 = strlcat b2 ''!'' len
                   in Inr (Heap a, True, poke a b3 st1))
              | (p, st1) \<Rightarrow> Inr (Static err_str, False, st1)))
      else Inr (Static err_str, False, st))"

text \<open>
  The copy of \<open>format_error\<close> in the earlier revision (\<open>src/unnamed/part_000\<close>,
  lines 95-112) is the same function without the test of \<open>ret\<close>: after a
  refused \<open>malloc\<close> the first \<open>strlcpy\<close> writes through \<open>NULL\<close>.
\<close>

definition format_error_part_000 ::
    "platform \<Rightarrow> os \<Rightarrow> string \<Rightarrow> int \<Rightarrow> proc \<Rightarrow> fault + ptr \<times> bool \<times> proc" where
  "format_error_part_000 pf os err_str err st =
     (if HAVE_STRERRORNAME_NP pf then
        (case strerrorname_np pf err of
           None \<Rightarrow> Inl NullDeref
         | Some name \<Rightarrow>
             (let len = 2 + strnlen name 20 in
              case malloc os st of
                (Heap a, st1) \<Rightarrow>
                  (let b1 = strlcpy [] ''!'' len;
                       b2 = strlcat b1 name len;
                       b3 = strlcat b2 ''!'' len
                   in Inr (Heap a, True, poke a b3 st1))
              | (p, st1) \<Rightarrow> Inl NullDeref))
      else Inr (Static err_str, False, st))"

text \<open>The statement \<open>ps->str = format_error(tok, errno, &ps->needs_free);\<close> of the resolvers.\<close>

definition set_error ::
    "platform \<Rightarrow> os \<Rightarrow> string \<Rightarrow> prompt_string \<Rightarrow> proc \<Rightarrow> fault + prompt_string \<times> proc" where
  "set_error pf os tok ps st =
     (case format_error pf os tok (errno st) st of
        Inl x \<Rightarrow> Inl x
      | Inr (r, nf, st1) \<Rightarrow> Inr (ps\<lparr>str := r, needs_free := nf\<rparr>, st1))"

subsection \<open>\<open>get_formatted_time\<close> (lines 174-203)\<close>

text \<open>
  Every resolver receives the slot \<open>ps\<close> of the element and returns it
  filled. The assignment \<open>ps->str = malloc_or_error(ps, n)\<close> stores the
  returned pointer after \<open>malloc_or_error\<close> has written to \<open>ps\<close>.
\<close>

definition get_formatted_time ::
    "platform \<Rightarrow> os \<Rightarrow> string option \<Rightarrow> prompt_string \<Rightarrow> proc \<Rightarrow> fault + prompt_string \<times> proc" where
  "get_formatted_time pf os fmt ps st =
     (let ps1 = ps\<lparr>needs_free := True\<rparr> in
      case time os st of (clock, st1) \<Rightarrow>
        if clock = -1 then set_error pf os ''!TIME!'' ps1 st1
        else
          (case malloc_or_error os ps1 st1 of (p, ps2, st2) \<Rightarrow>
             let ps3 = ps2\<lparr>str := p\<rparr> in
             case p of
               Heap a \<Rightarrow>
                 (case fmt of
                    None \<Rightarrow> Inl NullDeref
                  | Some f \<Rightarrow>
                      (case strftime os a MAX_STRFTIME_SIZE f clock st2 of (status, st3) \<Rightarrow>
                         if status = 0 then
                           (case free (str ps3) st3 of
                              Inl x \<Rightarrow> Inl x
                            | Inr st4 \<Rightarrow>
                                Inr (ps3\<lparr>needs_free := False, str := Static ''!STRFTIME!''\<rparr>, st4))
                         else Inr (ps3, st3)))
             | _ \<Rightarrow> Inr (ps3, st2)))"

text \<open>
  The copy of \<open>get_formatted_time\<close> in the earlier revision
  (\<open>src/unnamed/part_000\<close>, lines 120-145) returns the string and stores the
  flag through \<open>needs_free\<close>; it hands the result of \<open>malloc\<close> to
  \<open>strftime\<close> without a test.
\<close>

definition get_formatted_time_part_000 ::
    "platform \<Rightarrow> os \<Rightarrow> string option \<Rightarrow> proc \<Rightarrow> fault + ptr \<times> bool \<times> proc" where
  "get_formatted_time_part_000 pf os fmt st =
     (case time os st of (clock, st1) \<Rightarrow>
        if clock = -1 then format_error_part_000 pf os ''!TIME!'' (errno st1) st1
        else
          (case malloc os st1 of
             (Heap a, st2) \<Rightarrow>
               (case fmt of
                  None \<Rightarrow> Inl NullDeref
                | Some f \<Rightarrow>
                    (case strftime os a MAX_STRFTIME_SIZE f clock st2 of (status, st3) \<Rightarrow>
                       if status = 0 then
                         (case free (Heap a) st3 of
                            Inl x \<Rightarrow> Inl x
                          | Inr st4 \<Rightarrow> Inr (Static ''!STRFTIME!'', False, st4))
                       else Inr (Heap a, True, st3)))
           | (p, st2) \<Rightarrow> Inl NullDeref))"

subsection \<open>\<open>get_hostname\<close> (lines 212-254)\<close>

definition get_hostname ::
    "platform \<Rightarrow> os \<Rightarrow> bool \<Rightarrow> prompt_string \<Rightarrow> proc \<Rightarrow> fault + prompt_string \<times> proc" where
  "get_hostname pf os to_dot ps st =
     (let ps1 = ps\<lparr>needs_free := False\<rparr>;
          errno_temp = errno st
      in case sysconf os SC_HOST_NAME_MAX st of (len, st1) \<Rightarrow>
        if len = -1 then
          (if errno st1 = errno_temp then Inr (ps1\<lparr>str := Static ''!NOHOSTNAMEMAX!''\<rparr>, st1)
           else set_error pf os ''!SYSCONF!'' ps1 st1)
        else
          (let ps2 = ps1\<lparr>needs_free := True\<rparr> in
           case malloc_or_error os ps2 st1 of (p, ps3, st2) \<Rightarrow>
             let ps4 = ps3\<lparr>str := p\<rparr> in
             case p of
               Heap a \<Rightarrow>
                 (case gethostname os a (nat len) st2 of (rc, st3) \<Rightarrow>
                    if rc = -1 then
                      (case free (str ps4) st3 of
                         Inl x \<Rightarrow> Inl x
                       | Inr st4 \<Rightarrow> set_error pf os ''!GETHOSTNAME!'' ps4 st4)
                    else if to_dot then
                      Inr (ps4, st3\<lparr>heap := (heap st3)
                             (a := map_option (takeWhile (\<lambda>c. c \<noteq> CHR ''.'')) (heap st3 a))\<rparr>)
                    else Inr (ps4, st3))
             | _ \<Rightarrow> Inr (ps4, st2)))"

subsection \<open>\<open>get_tty_basename\<close> (lines 261-292)\<close>

definition get_tty_basename ::
    "platform \<Rightarrow> os \<Rightarrow> prompt_string \<Rightarrow> proc \<Rightarrow> fault + prompt_string \<times> proc" where
  "get_tty_basename pf os ps st =
     (let ps1 = ps\<lparr>needs_free := False\<rparr> in
      case isatty os st of (is_tty, st1) \<Rightarrow>
        if \<not> is_tty then set_error pf os ''!ISATTY!'' ps1 st1
        else
          (case ttyname os st1 of (tty, st2) \<Rightarrow>
             case tty of
               Static t \<Rightarrow>
                 (let ps2 = ps1\<lparr>needs_free := True\<rparr> in
                  case malloc_or_error os ps2 st2 of (p, ps3, st3) \<Rightarrow>
                    let ps4 = ps3\<lparr>str := p\<rparr> in
                    case p of
                      Heap a \<Rightarrow>
                        (case basename_r os t a st3 of (ok, st4) \<Rightarrow>
                           if \<not> ok then
                             (case free (str ps4) st4 of
                                Inl x \<Rightarrow> Inl x
                              | Inr st5 \<Rightarrow> set_error pf os ''!BASENAMER!'' ps4 st5)
                           else Inr (ps4, st4))
                    | _ \<Rightarrow> Inr (ps4, st3))
             | _ \<Rightarrow> set_error pf os ''!TTYNAME!'' ps1 st2))"

subsection \<open>\<open>get_parent_name\<close> (lines 299-327)\<close>

definition get_parent_name ::
    "platform \<Rightarrow> os \<Rightarrow> prompt_string \<Rightarrow> proc \<Rightarrow> fault + prompt_string \<times> proc" where
  "get_parent_name pf os ps st =
     (let ps1 = ps\<lparr>needs_free := True\<rparr> in
      case malloc_or_error os ps1 st of (p, ps2, st1) \<Rightarrow>
        let ps3 = ps2\<lparr>str := p\<rparr> in
        case p of
          Heap a \<Rightarrow>
            (let ppid = os_getppid os in
             if APPLE pf then
               (case proc_pidpath os ppid a (PROC_PIDPATHINFO_MAXSIZE pf) st1 of (ret, st2) \<Rightarrow>
                  if ret \<le> 0 then
                    (case free (str ps3) st2 of
                       Inl x \<Rightarrow> Inl x
                     | Inr st3 \<Rightarrow> set_error pf os ''!PROCPIDPATH!'' ps3 st3)
                  else Inr (ps3, st2))
             else
               (case free (str ps3) st1 of
                  Inl x \<Rightarrow> Inl x
                | Inr st2 \<Rightarrow> Inr (ps3\<lparr>needs_free := False, str := Static ''!NOPROC!''\<rparr>, st2)))
        | _ \<Rightarrow> Inr (ps3, st1))"

subsection \<open>\<open>get_username\<close> (lines 334-375)\<close>

definition get_username ::
    "platform \<Rightarrow> os \<Rightarrow> prompt_string \<Rightarrow> proc \<Rightarrow> fault + prompt_string \<times> proc" where
  "get_username pf os ps st =
     (let ps1 = ps\<lparr>needs_free := False\<rparr>;
          status = errno st
      in case sysconf os SC_GETPW_R_SIZE_MAX st of (bufsz, st1) \<Rightarrow>
        if bufsz = -1 then
          (if status = errno st1 then Inr (ps1\<lparr>str := Static ''!NOGETPWRSIZEMAX!''\<rparr>, st1)
           else set_error pf os ''!SYSCONF!'' ps1 st1)
        else
          (case malloc_or_error os ps1 st1 of (buf, ps2, st2) \<Rightarrow>
             case buf of
               Heap b \<Rightarrow>
                 (case getpwuid_r os (os_getuid os) b (nat bufsz) st2 of (status, result, st3) \<Rightarrow>
                    if status \<noteq> 0 then
                      (case free buf st3 of
                         Inl x \<Rightarrow> Inl x
                       | Inr st4 \<Rightarrow> set_error pf os ''!GETPWUIDR!'' ps2 st4)
                    else
                      (case result of
                         None \<Rightarrow>
                           (case free buf st3 of
                              Inl x \<Rightarrow> Inl x
                            | Inr st4 \<Rightarrow> Inr (ps2\<lparr>str := Static ''nobody''\<rparr>, st4))
                       | Some pass \<Rightarrow>
                           (let ps3 = ps2\<lparr>needs_free := True\<rparr> in
                            case strndup os (pw_name pass) (PATH_MAX pf + 1) st3 of (p, st4) \<Rightarrow>
                              let ps4 = ps3\<lparr>str := p\<rparr>;
                                  ps5 = (if p = Null
                                         then ps4\<lparr>needs_free := False, str := Static ''!STRNDUP!''\<rparr>
                                         else ps4)
                              in case free buf st4 of
                                   Inl x \<Rightarrow> Inl x
                                 | Inr st5 \<Rightarrow> Inr (ps5, st5))))
             | _ \<Rightarrow> Inr (ps2, st2)))"

subsection \<open>\<open>get_home_dir\<close> (lines 383-426)\<close>

text \<open>The result is the returned status and the pointer stored in \<open>*ret\<close>.\<close>

definition get_home_dir :: "platform \<Rightarrow> os \<Rightarrow> proc \<Rightarrow> fault + int \<times> ptr \<times> proc" where
  "get_home_dir pf os st =
     (case getenv os ''HOME'' of
        Static h \<Rightarrow> Inr (HOME_DIR_NO_ALLOC, Static h, st)
      | _ \<Rightarrow>
          (let status = errno st in
           case sysconf os SC_GETPW_R_SIZE_MAX st of (pwbufsz, st1) \<Rightarrow>
             if pwbufsz = -1 then
               (if status = errno st1 then Inr (HOME_DIR_NO_ALLOC, Static ''!NOGETPWRSIZEMAX!'', st1)
                else
                  (case format_error pf os ''!SYSCONF!'' (errno st1) st1 of
                     Inl x \<Rightarrow> Inl x
                   | Inr (r, err_free, st2) \<Rightarrow> Inr ((if err_free then 1 else 0) - 2, r, st2)))
             else
               (case malloc os st1 of
                  (Heap pwbuf, st2) \<Rightarrow>
                    (case getpwuid_r os (os_getuid os) pwbuf (nat pwbufsz) st2 of
                       (status, result, st3) \<Rightarrow>
                         if status \<noteq> 0 then
                           (case format_error pf os ''!GETPWUIDR!'' (errno st3) st3 of
                              Inl x \<Rightarrow> Inl x
                            | Inr (r, err_free, st4) \<Rightarrow>
                                Inr ((if err_free then 1 else 0) - 2, r, st4))
                         else
                           (case result of
                              None \<Rightarrow> Inr (HOME_DIR_NO_ALLOC, Static ''!USERNOTFOUND!'', st3)
                            | Some pw \<Rightarrow>
                                (case strndup os (pw_dir pw) (PATH_MAX pf + 1) st3 of
                                   (Heap home, st4) \<Rightarrow> Inr (HOME_DIR_ALLOC, Heap home, st4)
                                 | (p, st4) \<Rightarrow>
                                     Inr (HOME_DIR_FAILED_MESSAGE_NO_ALLOC, Static ''!STRNDUP!'', st4))))
                | (p, st2) \<Rightarrow> Inr (HOME_DIR_FAILED_MESSAGE_NO_ALLOC, Static ''!MALLOC!'', st2))))"

subsection \<open>\<open>get_pwd_tilde\<close> (lines 434-473)\<close>

text \<open>
  The loop \<open>for (match = pwd + 1; *(match + len); match++) *match = *(match + len);\<close>
  followed by \<open>*match = 0\<close>, on the array \<open>pwd\<close>; \<open>match\<close> is the offset of
  the pointer into the array. An access outside the array is a fault.
\<close>

function tilde_loop :: "int \<Rightarrow> nat \<Rightarrow> string \<Rightarrow> fault + string" where
  "tilde_loop len match pwd =
     (if int match + len < 0 \<or> int (length pwd) \<le> int match + len then Inl OutOfBounds
      else if pwd ! nat (int match + len) = NUL then
        (if match < length pwd then Inr (pwd[match := NUL]) else Inl OutOfBounds)
      else if length pwd \<le> match then Inl OutOfBounds
      else tilde_loop len (Suc match) (pwd[match := pwd ! nat (int match + len)]))"
  by pat_completeness auto
termination
  by (relation "measure (\<lambda>(len, match, pwd). length pwd - match)") auto

text \<open>The block \<open>if (match == pwd) { ... }\<close>: the array \<open>pwd\<close> afterwards.\<close>

definition tilde_collapse :: "platform \<Rightarrow> string \<Rightarrow> string \<Rightarrow> fault + string" where
  "tilde_collapse pf home pwd =
     (if strnstr (cstr pwd) home (PATH_MAX pf) = Some 0 then
        (let len = int (strnlen home (PATH_MAX pf)) - 1 in
         if pwd = [] then Inl OutOfBounds
         else tilde_loop len 1 (pwd[0 := CHR ''~'']))
      else Inr pwd)"

text \<open>
  The end of \<open>get_pwd_tilde\<close>, from \<open>len = strnlen(pwd, PATH_MAX) + 1\<close>
  on: the result buffer is allocated and filled from the array \<open>pwd\<close>. The
  \<open>else\<close> branch with \<open>strlcpy\<close> also runs after a successful
  \<open>basename_r\<close>.
\<close>

definition pwd_result ::
    "platform \<Rightarrow> os \<Rightarrow> bool \<Rightarrow> string \<Rightarrow> prompt_string \<Rightarrow> proc \<Rightarrow> fault + prompt_string \<times> proc" where
  "pwd_result pf os base pwd ps st =
     (let len = strnlen (cstr pwd) (PATH_MAX pf) + 1;
          ps1 = ps\<lparr>needs_free := True\<rparr>
      in case malloc_or_error os ps1 st of (p, ps2, st1) \<Rightarrow>
        let ps3 = ps2\<lparr>str := p\<rparr> in
        case p of
          Heap a \<Rightarrow>
            (if base then
               (case basename_r os (cstr pwd) a st1 of (ok, st2) \<Rightarrow>
                  if \<not> ok then
                    (case free (str ps3) st2 of
                       Inl x \<Rightarrow> Inl x
                     | Inr st3 \<Rightarrow> set_error pf os ''!BASENAMER!'' ps3 st3)
                  else Inr (ps3, poke a (strlcpy [] (cstr pwd) (PATH_MAX pf)) st2))
             else Inr (ps3, poke a (strlcpy [] (cstr pwd) (PATH_MAX pf)) st1))
        | _ \<Rightarrow> Inr (ps3, st1))"

definition get_pwd_tilde ::
    "platform \<Rightarrow> os \<Rightarrow> bool \<Rightarrow> prompt_string \<Rightarrow> proc \<Rightarrow> fault + prompt_string \<times> proc" where
  "get_pwd_tilde pf os base ps st =
     (case getcwd os (PATH_MAX pf) st of
        (None, st1) \<Rightarrow> set_error pf os ''!GETCWD!'' ps st1
      | (Some pwd, st1) \<Rightarrow>
          (case get_home_dir pf os st1 of
             Inl x \<Rightarrow> Inl x
           | Inr (status, home, st2) \<Rightarrow>
               if status < 0 then Inr (ps\<lparr>needs_free := (status + 2 \<noteq> 0), str := home\<rparr>, st2)
               else
                 (case deref home st2 of
                    Inl x \<Rightarrow> Inl x
                  | Inr h \<Rightarrow>
                      (case tilde_collapse pf h pwd of
                         Inl x \<Rightarrow> Inl x
                       | Inr pwd1 \<Rightarrow>
                           (case (if status = HOME_DIR_ALLOC then free home st2 else Inr st2) of
                              Inl x \<Rightarrow> Inl x
                            | Inr st3 \<Rightarrow> pwd_result pf os base pwd1 ps st3)))))"

section \<open>The engine: \<open>make_exploded_prompt\<close>, \<open>exploded_prompt_free\<close>, \<open>main\<close> (lines 485-583)\<close>

text \<open>The body of the \<open>switch\<close> of \<open>make_exploded_prompt\<close> for one element.\<close>

definition resolve ::
    "platform \<Rightarrow> os \<Rightarrow> PromptElement \<Rightarrow> prompt_string \<Rightarrow> proc \<Rightarrow> fault + prompt_string \<times> proc" where
  "resolve pf os el ps st =
     (case type el of
        StringLiteral \<Rightarrow>
          Inr (ps\<lparr>str := (case arg el of None \<Rightarrow> Null | Some s \<Rightarrow> Static s), needs_free := False\<rparr>, st)
      | Space \<Rightarrow> Inr (ps\<lparr>str := Static '' '', needs_free := False\<rparr>, st)
      | Bell \<Rightarrow> Inr (ps\<lparr>str := Static [CHR 0x07], needs_free := False\<rparr>, st)
      | WeekMonthDay \<Rightarrow> get_formatted_time pf os (Some ''%a %b %d'') ps st
      | StrftimeDate \<Rightarrow> get_formatted_time pf os (arg el) ps st
      | HourMinuteSecond24 \<Rightarrow> get_formatted_time pf os (Some ''%H:%M:%S'') ps st
      | HourMinuteSecond12 \<Rightarrow> get_formatted_time pf os (Some ''%I:%M:%S'') ps st
      | TimeAmPm \<Rightarrow> get_formatted_time pf os (Some ''%I:%M %p'') ps st
      | HourMinute24 \<Rightarrow> get_formatted_time pf os (Some ''%H:%M'') ps st
      | HostnameUpToDot \<Rightarrow> get_hostname pf os True ps st
      | FullHostname \<Rightarrow> get_hostname pf os False ps st
      | TtyBasename \<Rightarrow> get_tty_basename pf os ps st
      | ShellName \<Rightarrow> get_parent_name pf os ps st
      | Username \<Rightarrow> get_username pf os ps st
      | PwdTrunc \<Rightarrow> get_pwd_tilde pf os False ps st
      | PwdTruncBasename \<Rightarrow> get_pwd_tilde pf os True ps st
      | UserPrompt \<Rightarrow>
          Inr (ps\<lparr>str := Static (if os_geteuid os = 0 then ''#'' else ''$''), needs_free := False\<rparr>, st))"

text \<open>
  The \<open>for\<close> loop of \<open>make_exploded_prompt\<close> over the elements that are
  left. A slot of the fresh array holds no value before its resolver fills
  it; the model starts it as \<open>NULL\<close> and \<open>false\<close>.
\<close>

definition fresh_slot :: prompt_string where
  "fresh_slot = \<lparr>str = Null, needs_free = False\<rparr>"

fun explode :: "platform \<Rightarrow> os \<Rightarrow> PromptElement list \<Rightarrow> proc \<Rightarrow> fault + prompt_string list \<times> proc" where
  "explode pf os [] st = Inr ([], st)"
| "explode pf os (el # els) st =
     (case resolve pf os el fresh_slot st of
        Inl x \<Rightarrow> Inl x
      | Inr (ps, st1) \<Rightarrow>
          (case explode pf os els st1 of
             Inl x \<Rightarrow> Inl x
           | Inr (pss, st2) \<Rightarrow> Inr (ps # pss, st2)))"

text \<open>
  \<open>make_exploded_prompt\<close> over the array \<open>prompt\<close> of \<open>user_config.h\<close>,
  here the parameter \<open>cfg\<close>. The result is the pointer \<open>elements\<close>, the
  array it points to and \<open>*len\<close>. The result of \<open>malloc\<close> is not checked:
  writing the first slot through \<open>NULL\<close> is a fault.
\<close>

definition make_exploded_prompt ::
    "platform \<Rightarrow> os \<Rightarrow> PromptElement list \<Rightarrow> proc
      \<Rightarrow> fault + (ptr \<times> prompt_string list \<times> nat) \<times> proc" where
  "make_exploded_prompt pf os cfg st =
     (let prompt_elements = length cfg in
      case malloc os st of (elements, st1) \<Rightarrow>
        if elements = Null \<and> 0 < prompt_elements then Inl NullDeref
        else
          (case explode pf os cfg st1 of
             Inl x \<Rightarrow> Inl x
           | Inr (pss, st2) \<Rightarrow> Inr ((elements, pss, prompt_elements), st2)))"

fun free_loop :: "prompt_string list \<Rightarrow> proc \<Rightarrow> fault + proc" where
  "free_loop [] st = Inr st"
| "free_loop (e # es) st =
     (if needs_free e then
        (case free (str e) st of Inl x \<Rightarrow> Inl x | Inr st1 \<Rightarrow> free_loop es st1)
      else free_loop es st)"

definition exploded_prompt_free :: "ptr \<Rightarrow> prompt_string list \<Rightarrow> nat \<Rightarrow> proc \<Rightarrow> fault + proc" where
  "exploded_prompt_free exploded_prompt elems len st =
     (if length elems < len then Inl OutOfBounds
      else
        (case free_loop (take len elems) st of
           Inl x \<Rightarrow> Inl x
         | Inr st1 \<Rightarrow> free exploded_prompt st1))"

text \<open>The \<open>printf\<close> loop of \<open>main\<close>, from index \<open>i\<close> on.\<close>

function print_loop :: "nat \<Rightarrow> nat \<Rightarrow> prompt_string list \<Rightarrow> proc \<Rightarrow> fault + proc" where
  "print_loop i exploded_length elems st =
     (if i < exploded_length then
        (if length elems \<le> i then Inl OutOfBounds
         else
           (case deref (str (elems ! i)) st of
              Inl x \<Rightarrow> Inl x
            | Inr s \<Rightarrow>
                print_loop (Suc i) exploded_length elems
                  (st\<lparr>stdout := stdout st @ s
                       @ (if i = exploded_length - 1 then [CHR 0x0A] else [])\<rparr>)))
      else Inr st)"
  by pat_completeness auto
termination
  by (relation "measure (\<lambda>(i, exploded_length, elems, st). exploded_length - i)") auto

text \<open>A process starts with \<open>errno\<close> zero, an empty heap and nothing written.\<close>

definition startup :: proc where
  "startup = \<lparr>errno = 0, heap = Map.empty, brk = 0, freed = [], stdout = []\<rparr>"

definition main :: "platform \<Rightarrow> os \<Rightarrow> PromptElement list \<Rightarrow> fault + proc" where
  "main pf os cfg =
     (case make_exploded_prompt pf os cfg startup of
        Inl x \<Rightarrow> Inl x
      | Inr ((exploded_prompt, elems, exploded_length), st1) \<Rightarrow>
          (case print_loop 0 exploded_length elems st1 of
             Inl x \<Rightarrow> Inl x
           | Inr st2 \<Rightarrow> exploded_prompt_free exploded_prompt elems exploded_length st2))"

text \<open>The configuration shipped in \<open>user_config.h\<close>.\<close>

definition prompt :: "PromptElement list" where
  "prompt =
     [\<lparr>type = StringLiteral, arg = Some (CHR 0x1B # ''[1;32m'')\<rparr>,
      \<lparr>type = Username, arg = None\<rparr>,
      \<lparr>type = StringLiteral, arg = Some ''@''\<rparr>,
      \<lparr>type = HostnameUpToDot, arg = None\<rparr>,
      \<lparr>type = StringLiteral, arg = Some (CHR 0x1B # ''[1;34m'')\<rparr>,
      \<lparr>type = Space, arg = None\<rparr>,
      \<lparr>type = PwdTrunc, arg = None\<rparr>,
      \<lparr>type = Space, arg = None\<rparr>,
      \<lparr>type = UserPrompt, arg = None\<rparr>,
      \<lparr>type = StringLiteral, arg = Some (CHR 0x1B # ''[0m'')\<rparr>,
      \<lparr>type = Space, arg = None\<rparr>]"

section \<open>Sample platforms and a sample operating system\<close>

text \<open>
  Concrete inputs for the closed theorems below: a glibc-like platform that
  has \<open>strerrorname_np\<close> (with the names of the codes that occur below;
  the code 4095, which stands for a code without a name, has none in glibc
  either), a macOS-like platform that has not, and an operating system on
  which every call succeeds.
\<close>

definition errname :: "int \<Rightarrow> string option" where
  "errname e =
     (if e = 0 then Some ''0'' else if e = 2 then Some ''ENOENT'' else if e = 5 then Some ''EIO''
      else if e = 12 then Some ''ENOMEM'' else if e = 22 then Some ''EINVAL''
      else if e = 25 then Some ''ENOTTY'' else if e = 34 then Some ''ERANGE'' else None)"

definition glibc :: platform where
  "glibc = \<lparr>HAVE_STRERRORNAME_NP = True, strerrorname_np = errname, APPLE = False,
             PATH_MAX = 4096, PROC_PIDPATHINFO_MAXSIZE = 4096\<rparr>"

definition darwin :: platform where
  "darwin = \<lparr>HAVE_STRERRORNAME_NP = False, strerrorname_np = (\<lambda>e. None), APPLE = True,
              PATH_MAX = 1024, PROC_PIDPATHINFO_MAXSIZE = 4096\<rparr>"

definition world :: os where
  "world =
     \<lparr>os_malloc = (\<lambda>k. True),
      os_time = Answer 1716738734,
      os_strftime = (\<lambda>fmt t. if fmt = ''%H:%M'' then ''21:11'' else ''Tue May 26''),
      os_sysconf = (\<lambda>n. Answer (case n of SC_HOST_NAME_MAX \<Rightarrow> 255 | SC_GETPW_R_SIZE_MAX \<Rightarrow> 4096)),
      os_gethostname = (\<lambda>n. Answer ''box.example.org''),
      os_isatty = Answer (),
      os_ttyname = Answer ''/dev/pts/3'',
      os_basename_r = (\<lambda>p. Answer (rev (takeWhile (\<lambda>c. c \<noteq> CHR ''/'') (rev p)))),
      os_getppid = 1,
      os_proc_pidpath = (\<lambda>p n. Answer ''/bin/zsh''),
      os_getuid = 501,
      os_geteuid = 501,
      os_getpwuid_r = (\<lambda>u n. PwEntry \<lparr>pw_name = ''alice'', pw_dir = ''/home/alice''\<rparr>),
      os_getenv = (\<lambda>n. if n = ''HOME'' then Some ''/home/alice'' else None),
      os_getcwd = Answer ''/home/alice/proj''\<rparr>"

text \<open>
  Two small catalogs: the greeting of the end-to-end example of the
  specification, and one that mixes literals with owned fragments.
\<close>

definition greeting :: "PromptElement list" where
  "greeting =
     [\<lparr>type = StringLiteral, arg = Some ''hi ''\<rparr>,
      \<lparr>type = Username, arg = None\<rparr>,
      \<lparr>type = StringLiteral, arg = Some ''!''\<rparr>]"

definition demo :: "PromptElement list" where
  "demo =
     [\<lparr>type = Username, arg = None\<rparr>,
      \<lparr>type = StringLiteral, arg = Some ''@''\<rparr>,
      \<lparr>type = HostnameUpToDot, arg = None\<rparr>,
      \<lparr>type = Space, arg = None\<rparr>,
      \<lparr>type = UserPrompt, arg = None\<rparr>]"

text \<open>
  The catalog of the run that shows how \<open>errno\<close> travels from one
  element to the next, and the view of a run used there: the text and the
  flag of every fragment \<open>make_exploded_prompt\<close> returns.
\<close>

definition tty_and_user :: "PromptElement list" where
  "tty_and_user = [\<lparr>type = TtyBasename, arg = None\<rparr>, \<lparr>type = Username, arg = None\<rparr>]"

definition fragments :: "platform \<Rightarrow> os \<Rightarrow> PromptElement list \<Rightarrow> fault + ((fault + string) \<times> bool) list" where
  "fragments pf os cfg =
     (case make_exploded_prompt pf os cfg startup of
        Inl x \<Rightarrow> Inl x
      | Inr ((c, elems, n), st) \<Rightarrow> Inr (map (\<lambda>e. (deref (str e) st, needs_free e)) elems))"

text \<open>
  The pattern the \<open>switch\<close> of \<open>make_exploded_prompt\<close> hands to
  \<open>get_formatted_time\<close>: a fixed one for the five date and time kinds,
  the argument of the element for \<open>StrftimeDate\<close>.
\<close>

definition time_pattern :: "PromptElement \<Rightarrow> string option" where
  "time_pattern el =
     (case type el of
        WeekMonthDay \<Rightarrow> Some ''%a %b %d''
      | StrftimeDate \<Rightarrow> arg el
      | HourMinuteSecond24 \<Rightarrow> Some ''%H:%M:%S''
      | HourMinuteSecond12 \<Rightarrow> Some ''%I:%M:%S''
      | TimeAmPm \<Rightarrow> Some ''%I:%M %p''
      | HourMinute24 \<Rightarrow> Some ''%H:%M''
      | _ \<Rightarrow> None)"

text \<open>
  The tilde collapse as the specification words it: a working directory
  that begins with the home directory has that prefix replaced by \<open>~\<close>,
  any other working directory is left as it is.
\<close>

definition collapsed :: "string \<Rightarrow> string \<Rightarrow> string" where
  "collapsed home pwd =
     (if take (length home) pwd = home then CHR ''~'' # drop (length home) pwd else pwd)"

section \<open>Ownership of heap blocks\<close>

text \<open>
  Blocks are numbered in the order of the allocation requests, so a block
  with a number at or above \<open>brk st\<close> was allocated after the state \<open>st\<close>.
  \<open>ext b st st'\<close>: the run from \<open>st\<close> to \<open>st'\<close> leaves the blocks below
  \<open>b\<close> and standard output as they are, and every block that is live at
  the end was live before or has been allocated in between.
\<close>

definition ext :: "nat \<Rightarrow> proc \<Rightarrow> proc \<Rightarrow> bool" where
  "ext b st st' \<longleftrightarrow>
     brk st \<le> brk st' \<and> (\<forall>a<b. heap st' a = heap st a) \<and> stdout st' = stdout st
     \<and> (\<forall>a y. heap st' a = Some y \<longrightarrow> (\<exists>z. heap st a = Some z) \<or> (brk st \<le> a \<and> a < brk st'))"

text \<open>
  \<open>owned_ok st ps st'\<close>: the flag of the fragment \<open>ps\<close>, resolved between
  \<open>st\<close> and \<open>st'\<close>, is set exactly when its string is a block allocated
  in between that is still live.
\<close>

definition owned_ok :: "proc \<Rightarrow> prompt_string \<Rightarrow> proc \<Rightarrow> bool" where
  "owned_ok st ps st' \<longleftrightarrow>
     (if needs_free ps then \<exists>a y. str ps = Heap a \<and> brk st \<le> a \<and> a < brk st' \<and> heap st' a = Some y
      else \<forall>a. str ps \<noteq> Heap a)"

text \<open>The blocks of the fragments flagged \<open>needs_free\<close>, in order, and the block behind a pointer.\<close>

definition owned_addrs :: "prompt_string list \<Rightarrow> nat list" where
  "owned_addrs pss = concat (map (\<lambda>e. case str e of Heap a \<Rightarrow> [a] | _ \<Rightarrow> []) (filter needs_free pss))"

definition block_of :: "ptr \<Rightarrow> nat list" where
  "block_of p = (case p of Heap a \<Rightarrow> [a] | _ \<Rightarrow> [])"

section \<open>The error helper\<close>

text \<open>
  With \<open>strerrorname_np\<close>, a code that has a name and a successful
  allocation the buffer has \<open>2 + n\<close> bytes for a name of \<open>n\<close> characters
  (at most 20 are counted): room for the opening \<open>!\<close>, the name and the
  terminator, so the last \<open>strlcat\<close> appends nothing.
\<close>

lemma format_error_owned:
  "HAVE_STRERRORNAME_NP pf \<Longrightarrow> strerrorname_np pf err = Some name \<Longrightarrow> os_malloc os (brk st) \<Longrightarrow>
   format_error pf os err_str err st =
     Inr (Heap (brk st), True,
          st\<lparr>heap := (heap st)(brk st \<mapsto> ''!'' @ take 20 name), brk := Suc (brk st)\<rparr>)"
  by (simp add: format_error_def malloc_def poke_def strlcpy_def strlcat_def strnlen_def Let_def min_def)

lemma format_error_default:
  "\<not> HAVE_STRERRORNAME_NP pf \<Longrightarrow> format_error pf os err_str err st = Inr (Static err_str, False, st)"
  by (simp add: format_error_def)

text \<open>
  Claim C2: with the error-naming facility, \<open>format_error\<close> returns an owned
  string of the form \<open>!NAME!\<close>. On the glibc-like platform, for the error
  code 2 (\<open>ENOENT\<close>) and a granted allocation, the code returns an owned
  string, but it is \<open>!ENOENT\<close>: the closing \<open>!\<close> is missing.
\<close>

theorem format_error_closing_bang_lost:
  "map_sum id (\<lambda>(r, nf, st). (deref r st, nf)) (format_error glibc world ''!TIME!'' 2 startup)
     = Inr (Inr ''!ENOENT'', True)"
  by (simp add: format_error_owned [where name = "''ENOENT''"] glibc_def world_def startup_def
        errname_def deref_def)

text \<open>
  The fallback of \<open>format_error\<close>: when the code has a name (or the
  facility is missing) and the buffer is refused, the default token of the
  caller is returned with \<open>needs_free = false\<close>. A code without a name
  stops the function before it allocates, and the copy of the earlier
  revision stops on every refused allocation.
\<close>

lemma format_error_fallback:
  "HAVE_STRERRORNAME_NP pf \<Longrightarrow> strerrorname_np pf err = Some name \<Longrightarrow> \<not> os_malloc os (brk st) \<Longrightarrow>
   format_error pf os err_str err st =
     Inr (Static err_str, False, st\<lparr>errno := ENOMEM, brk := Suc (brk st)\<rparr>)"
  by (simp add: format_error_def malloc_def Let_def)

lemma format_error_unnamed:
  "HAVE_STRERRORNAME_NP pf \<Longrightarrow> strerrorname_np pf err = None \<Longrightarrow>
   format_error pf os err_str err st = Inl NullDeref"
  by (simp add: format_error_def)

lemma format_error_part_000_refused:
  "HAVE_STRERRORNAME_NP pf \<Longrightarrow> \<not> os_malloc os (brk st) \<Longrightarrow>
   format_error_part_000 pf os err_str err st = Inl NullDeref"
  by (simp add: format_error_part_000_def malloc_def Let_def split: option.splits)

lemma format_error_part_000_granted:
  "os_malloc os (brk st) \<Longrightarrow>
   format_error_part_000 pf os err_str err st = format_error pf os err_str err st"
  by (simp add: format_error_part_000_def format_error_def malloc_def Let_def split: option.splits)

lemma format_error_fault:
  "format_error pf os err_str err st = Inl x \<Longrightarrow>
   x = NullDeref \<and> HAVE_STRERRORNAME_NP pf \<and> strerrorname_np pf err = None"
  by (auto simp: format_error_def Let_def split: if_splits option.splits prod.splits ptr.splits)

text \<open>
  Claim C3: \<open>format_error\<close> never hands a failure to its caller: for every
  default token and error code, a refused allocation of the buffer gives the
  default token of the caller with \<open>needs_free = false\<close>. On the glibc-like
  platform with every allocation refused, \<open>format_error\<close> does not return
  for the code 4095, which has no name: \<open>strnlen\<close> reads through the
  \<open>NULL\<close> that \<open>strerrorname_np\<close> returns. The copy of the earlier
  revision does not return for the code 2 (\<open>ENOENT\<close>) either: it writes
  through the \<open>NULL\<close> that \<open>malloc\<close> returns.
\<close>

theorem format_error_hands_on_failure:
  "format_error glibc (world\<lparr>os_malloc := (\<lambda>k. False)\<rparr>) ''!TIME!'' 4095 startup = Inl NullDeref
   \<and> format_error_part_000 glibc (world\<lparr>os_malloc := (\<lambda>k. False)\<rparr>) ''!TIME!'' 2 startup
       = Inl NullDeref"
  by (simp add: format_error_unnamed format_error_part_000_refused glibc_def errname_def)

section \<open>Every resolver sets the ownership flag right\<close>

text \<open>The evaluation of the model on concrete inputs unfolds these definitions.\<close>

lemmas model_defs = make_exploded_prompt_def resolve_def get_username_def get_hostname_def
  get_formatted_time_def get_tty_basename_def get_parent_name_def get_home_dir_def
  malloc_def free_def poke_def malloc_or_error_def format_error_def set_error_def
  strndup_def time_def strftime_def sysconf_def gethostname_def isatty_def ttyname_def basename_r_def
  proc_pidpath_def getpwuid_r_def getenv_def getcwd_def fresh_slot_def deref_def
  exploded_prompt_free_def main_def startup_def

declare print_loop.simps [simp del] tilde_loop.simps [simp del]

lemmas prims = malloc_def free_def poke_def malloc_or_error_def format_error_def set_error_def
  strndup_def time_def strftime_def sysconf_def gethostname_def isatty_def ttyname_def basename_r_def
  proc_pidpath_def getpwuid_r_def getenv_def getcwd_def

lemmas splits = prod.splits if_splits ptr.splits option.splits sum.splits answer.splits
  pw_answer.splits

text \<open>
  Each resolver, on every path on which it returns: the blocks that existed
  before the call are untouched, and the flag of the fragment is set
  exactly when the string is a block of this call that is still live.
\<close>

lemma get_formatted_time_inv:
  "get_formatted_time pf os fmt ps st = Inr (ps', st') \<Longrightarrow>
   ext (brk st) st st' \<and> owned_ok st ps' st'"
  unfolding get_formatted_time_def ext_def owned_ok_def
  by (auto simp: prims Let_def split: splits)

lemma get_hostname_inv:
  "get_hostname pf os to_dot ps st = Inr (ps', st') \<Longrightarrow>
   ext (brk st) st st' \<and> owned_ok st ps' st'"
  unfolding get_hostname_def ext_def owned_ok_def
  by (auto simp: prims Let_def split: splits)

lemma get_tty_basename_inv:
  "get_tty_basename pf os ps st = Inr (ps', st') \<Longrightarrow>
   ext (brk st) st st' \<and> owned_ok st ps' st'"
  unfolding get_tty_basename_def ext_def owned_ok_def
  by (auto simp: prims Let_def split: splits)

lemma get_parent_name_inv:
  "get_parent_name pf os ps st = Inr (ps', st') \<Longrightarrow>
   ext (brk st) st st' \<and> owned_ok st ps' st'"
  unfolding get_parent_name_def ext_def owned_ok_def
  by (auto simp: prims Let_def split: splits)

lemma get_username_inv:
  "get_username pf os ps st = Inr (ps', st') \<Longrightarrow>
   ext (brk st) st st' \<and> owned_ok st ps' st'"
  unfolding get_username_def ext_def owned_ok_def
  by (auto simp: prims Let_def split: splits)

text \<open>
  The four outcomes of \<open>get_home_dir\<close>: with the status \<open>-1\<close> or \<open>1\<close>
  the string is a block allocated by the call, with \<open>-2\<close> or \<open>0\<close> it is
  not a heap block.
\<close>

lemma get_home_dir_inv:
  "get_home_dir pf os st = Inr (status, home, st') \<Longrightarrow>
   ext (brk st) st st' \<and> (status = -2 \<or> status = -1 \<or> status = 0 \<or> status = 1) \<and>
   (if status = -1 \<or> status = 1
    then \<exists>a y. home = Heap a \<and> brk st \<le> a \<and> a < brk st' \<and> heap st' a = Some y
    else \<exists>s. home = Static s)"
  unfolding get_home_dir_def ext_def
  by (auto simp: prims Let_def HOME_DIR_NO_ALLOC_def HOME_DIR_ALLOC_def
        HOME_DIR_FAILED_MESSAGE_NO_ALLOC_def split: splits)

lemma ext_trans: "ext b s1 s2 \<Longrightarrow> ext b s2 s3 \<Longrightarrow> ext b s1 s3"
  unfolding ext_def by (auto; fastforce)

lemma ext_mono: "ext b' s1 s2 \<Longrightarrow> b \<le> b' \<Longrightarrow> ext b s1 s2"
  unfolding ext_def by auto

lemma owned_ok_mono:
  "owned_ok s2 ps s3 \<Longrightarrow>
   brk s1 \<le> brk s2 \<Longrightarrow>
   owned_ok s1 ps s3"
  unfolding owned_ok_def by (auto split: if_splits)

lemma pwd_result_inv:
  "pwd_result pf os base pwd ps st = Inr (ps', st') \<Longrightarrow>
   ext (brk st) st st' \<and> owned_ok st ps' st'"
  unfolding pwd_result_def ext_def owned_ok_def
  by (auto simp: prims Let_def split: splits)

lemma getcwd_same:
  "getcwd os n st = (r, st') \<Longrightarrow>
   brk st' = brk st \<and> heap st' = heap st \<and> stdout st' = stdout st"
  by (auto simp: getcwd_def split: splits)

lemma set_error_inv:
  "set_error pf os tok ps st = Inr (ps', st') \<Longrightarrow>
   ext (brk st) st st' \<and> owned_ok st ps' st'"
  unfolding ext_def owned_ok_def
  by (auto simp: prims Let_def split: splits)

lemma free_fresh:
  "free p st2 = Inr st3 \<Longrightarrow>
   (\<And>a. p = Heap a \<Longrightarrow>
   b \<le> a) \<Longrightarrow>
   ext b st2 st3 \<and> brk st3 = brk st2"
  by (auto simp: free_def ext_def split: splits)

lemma ext_cong:
  "brk st1 = brk st \<Longrightarrow>
   heap st1 = heap st \<Longrightarrow>
   stdout st1 = stdout st \<Longrightarrow>
   ext b st1 st' \<Longrightarrow>
   ext b st st'"
  by (simp add: ext_def)

lemma owned_ok_cong:
  "brk st1 = brk st \<Longrightarrow>
   owned_ok st1 ps st' \<Longrightarrow>
   owned_ok st ps st'"
  by (erule owned_ok_mono) simp

lemma get_pwd_tilde_inv:
  assumes "get_pwd_tilde pf os base ps st = Inr (ps', st')"
  shows "ext (brk st) st st' \<and> owned_ok st ps' st'"
proof -
  obtain r st1 where cwd: "getcwd os (PATH_MAX pf) st = (r, st1)"
    by (cases "getcwd os (PATH_MAX pf) st")
  from getcwd_same [OF cwd] have same: "brk st1 = brk st" "heap st1 = heap st" "stdout st1 = stdout st"
    by simp_all
  have "ext (brk st1) st1 st' \<and> owned_ok st1 ps' st'"
  proof (cases r)
    case None
    with assms cwd have "set_error pf os ''!GETCWD!'' ps st1 = Inr (ps', st')"
      by (simp add: get_pwd_tilde_def)
    then show ?thesis by (rule set_error_inv)
  next
    case (Some pwd)
    with assms cwd obtain status home st2 where hd: "get_home_dir pf os st1 = Inr (status, home, st2)"
      by (cases "get_home_dir pf os st1") (auto simp: get_pwd_tilde_def)
    note inv = get_home_dir_inv [OF hd]
    show ?thesis
    proof (cases "status < 0")
      case True
      with assms cwd Some hd have "ps' = ps\<lparr>needs_free := (status + 2 \<noteq> 0), str := home\<rparr>" "st' = st2"
        by (simp_all add: get_pwd_tilde_def)
      with inv True show ?thesis
        by (auto simp: owned_ok_def)
    next
      case False
      with assms cwd Some hd have body:
        "(case deref home st2 of
            Inl x \<Rightarrow> Inl x
          | Inr h \<Rightarrow>
              (case tilde_collapse pf h pwd of
                 Inl x \<Rightarrow> Inl x
               | Inr pwd1 \<Rightarrow>
                   (case (if status = HOME_DIR_ALLOC then free home st2 else Inr st2) of
                      Inl x \<Rightarrow> Inl x
                    | Inr st3 \<Rightarrow> pwd_result pf os base pwd1 ps st3))) = Inr (ps', st')"
        by (simp add: get_pwd_tilde_def)
      then obtain h where h: "deref home st2 = Inr h"
        by (cases "deref home st2") simp_all
      with body obtain pwd1 where p1: "tilde_collapse pf h pwd = Inr pwd1"
        by (cases "tilde_collapse pf h pwd") simp_all
      with body h obtain st3 where
        fr: "(if status = HOME_DIR_ALLOC then free home st2 else Inr st2) = Inr st3"
        by (cases "if status = HOME_DIR_ALLOC then free home st2 else Inr st2") simp_all
      with body h p1 have res: "pwd_result pf os base pwd1 ps st3 = Inr (ps', st')"
        by simp
      have e23: "ext (brk st1) st2 st3 \<and> brk st3 = brk st2"
      proof (cases "status = HOME_DIR_ALLOC")
        case True
        with fr have "free home st2 = Inr st3" by simp
        moreover from inv True have "\<And>a. home = Heap a \<Longrightarrow> brk st1 \<le> a"
          by (auto simp: HOME_DIR_ALLOC_def)
        ultimately show ?thesis by (rule free_fresh)
      next
        case False
        with fr show ?thesis by (simp add: ext_def)
      qed
      from inv e23 have le: "brk st1 \<le> brk st3" by (simp add: ext_def)
      from pwd_result_inv [OF res] have e3: "ext (brk st1) st3 st'" and o3: "owned_ok st1 ps' st'"
        using le by (auto intro: ext_mono owned_ok_mono)
      from inv have "ext (brk st1) st1 st2" by simp
      with e23 have "ext (brk st1) st1 st3" using ext_trans by blast
      from this e3 have "ext (brk st1) st1 st'" by (rule ext_trans)
      with o3 show ?thesis by simp
    qed
  qed
  then have "ext (brk st) st1 st'" and "owned_ok st1 ps' st'"
    using same by simp_all
  with same show ?thesis
    using ext_cong [of st1 st "brk st" st'] owned_ok_cong [of st1 st ps' st'] by simp
qed

lemma ext_refl: "ext b st st"
  by (simp add: ext_def)

lemma resolve_inv:
  assumes "resolve pf os el ps st = Inr (ps', st')"
  shows "ext (brk st) st st' \<and> owned_ok st ps' st'"
proof (cases "type el")
  case StringLiteral
  with assms show ?thesis
    by (auto simp: resolve_def ext_refl owned_ok_def split: option.splits)
next
  case Space
  with assms show ?thesis by (auto simp: resolve_def ext_refl owned_ok_def)
next
  case Bell
  with assms show ?thesis by (auto simp: resolve_def ext_refl owned_ok_def)
next
  case UserPrompt
  with assms show ?thesis by (auto simp: resolve_def ext_refl owned_ok_def)
next
  case HostnameUpToDot
  with assms show ?thesis by (simp add: resolve_def get_hostname_inv)
next
  case FullHostname
  with assms show ?thesis by (simp add: resolve_def get_hostname_inv)
next
  case TtyBasename
  with assms show ?thesis by (simp add: resolve_def get_tty_basename_inv)
next
  case ShellName
  with assms show ?thesis by (simp add: resolve_def get_parent_name_inv)
next
  case WeekMonthDay
  with assms show ?thesis by (simp add: resolve_def get_formatted_time_inv)
next
  case StrftimeDate
  with assms show ?thesis by (simp add: resolve_def get_formatted_time_inv)
next
  case HourMinuteSecond24
  with assms show ?thesis by (simp add: resolve_def get_formatted_time_inv)
next
  case HourMinuteSecond12
  with assms show ?thesis by (simp add: resolve_def get_formatted_time_inv)
next
  case TimeAmPm
  with assms show ?thesis by (simp add: resolve_def get_formatted_time_inv)
next
  case HourMinute24
  with assms show ?thesis by (simp add: resolve_def get_formatted_time_inv)
next
  case Username
  with assms show ?thesis by (simp add: resolve_def get_username_inv)
next
  case PwdTrunc
  with assms show ?thesis by (simp add: resolve_def get_pwd_tilde_inv)
next
  case PwdTruncBasename
  with assms show ?thesis by (simp add: resolve_def get_pwd_tilde_inv)
qed

subsection \<open>The faults of a resolver\<close>

text \<open>
  No resolver releases a block that is not live and none reads through a
  dangling pointer: the run of a resolver stops in three ways only. The
  error helper is called with a code that \<open>strerrorname_np\<close> has no name
  for, a time element of kind \<open>StrftimeDate\<close> has no pattern and hands
  \<open>NULL\<close> to \<open>strftime\<close>, or the tilde loop of \<open>get_pwd_tilde\<close> (lines
  454-455) runs past the end of the directory buffer.
\<close>

lemma set_error_fault:
  "set_error pf os tok ps st = Inl x \<Longrightarrow>
   x = NullDeref \<and> HAVE_STRERRORNAME_NP pf \<and> (\<exists>e. strerrorname_np pf e = None)"
  by (auto simp: set_error_def split: sum.splits dest: format_error_fault)

lemma get_formatted_time_faults:
  "get_formatted_time pf os fmt ps st = Inl x \<Longrightarrow>
   x = NullDeref \<and> (fmt = None \<or> HAVE_STRERRORNAME_NP pf \<and> (\<exists>e. strerrorname_np pf e = None))"
  unfolding get_formatted_time_def
  by (auto simp: malloc_def free_def poke_def malloc_or_error_def time_def strftime_def Let_def
        split: splits dest: set_error_fault)

lemma get_hostname_fault:
  "get_hostname pf os to_dot ps st = Inl x \<Longrightarrow>
   x = NullDeref \<and> HAVE_STRERRORNAME_NP pf \<and> (\<exists>e. strerrorname_np pf e = None)"
  unfolding get_hostname_def
  by (auto simp: malloc_def free_def poke_def malloc_or_error_def sysconf_def gethostname_def Let_def
        split: splits dest: set_error_fault)

lemma get_tty_basename_fault:
  "get_tty_basename pf os ps st = Inl x \<Longrightarrow>
   x = NullDeref \<and> HAVE_STRERRORNAME_NP pf \<and> (\<exists>e. strerrorname_np pf e = None)"
  unfolding get_tty_basename_def
  by (auto simp: malloc_def free_def poke_def malloc_or_error_def isatty_def ttyname_def
        basename_r_def Let_def split: splits dest: set_error_fault)

lemma get_parent_name_fault:
  "get_parent_name pf os ps st = Inl x \<Longrightarrow>
   x = NullDeref \<and> HAVE_STRERRORNAME_NP pf \<and> (\<exists>e. strerrorname_np pf e = None)"
  unfolding get_parent_name_def
  by (auto simp: malloc_def free_def poke_def malloc_or_error_def proc_pidpath_def Let_def
        split: splits dest: set_error_fault)

lemma get_username_fault:
  "get_username pf os ps st = Inl x \<Longrightarrow>
   x = NullDeref \<and> HAVE_STRERRORNAME_NP pf \<and> (\<exists>e. strerrorname_np pf e = None)"
  unfolding get_username_def
  by (auto simp: malloc_def free_def poke_def malloc_or_error_def sysconf_def getpwuid_r_def
        strndup_def Let_def split: splits dest: set_error_fault)

lemma get_home_dir_fault:
  "get_home_dir pf os st = Inl x \<Longrightarrow>
   x = NullDeref \<and> HAVE_STRERRORNAME_NP pf \<and> (\<exists>e. strerrorname_np pf e = None)"
  unfolding get_home_dir_def
  by (auto simp: malloc_def poke_def sysconf_def getpwuid_r_def strndup_def getenv_def Let_def
        split: splits dest: format_error_fault)

lemma pwd_result_fault:
  "pwd_result pf os base pwd ps st = Inl x \<Longrightarrow>
   x = NullDeref \<and> HAVE_STRERRORNAME_NP pf \<and> (\<exists>e. strerrorname_np pf e = None)"
  unfolding pwd_result_def
  by (auto simp: malloc_def free_def poke_def malloc_or_error_def basename_r_def Let_def
        split: splits dest: set_error_fault)

lemma tilde_loop_fault: "tilde_loop len m pwd = Inl x \<Longrightarrow> x = OutOfBounds"
proof (induction len m pwd rule: tilde_loop.induct)
  case (1 len match pwd)
  from "1.prems" show ?case
    by (subst (asm) tilde_loop.simps) (auto split: if_splits dest: "1.IH" [rotated -1])
qed

lemma tilde_collapse_fault: "tilde_collapse pf home pwd = Inl x \<Longrightarrow> x = OutOfBounds"
  by (auto simp: tilde_collapse_def Let_def split: if_splits dest: tilde_loop_fault)

lemma get_pwd_tilde_fault:
  assumes "get_pwd_tilde pf os base ps st = Inl x"
  shows "x = OutOfBounds
       \<or> x = NullDeref \<and> HAVE_STRERRORNAME_NP pf \<and> (\<exists>e. strerrorname_np pf e = None)"
proof -
  obtain r st1 where cwd: "getcwd os (PATH_MAX pf) st = (r, st1)"
    by (cases "getcwd os (PATH_MAX pf) st")
  show ?thesis
  proof (cases r)
    case None
    with assms cwd have "set_error pf os ''!GETCWD!'' ps st1 = Inl x"
      by (simp add: get_pwd_tilde_def)
    then show ?thesis by (auto dest: set_error_fault)
  next
    case (Some pwd)
    show ?thesis
    proof (cases "get_home_dir pf os st1")
      case (Inl y)
      with assms cwd Some have "x = y" by (simp add: get_pwd_tilde_def)
      with Inl show ?thesis by (auto dest: get_home_dir_fault)
    next
      case (Inr t)
      then obtain status home st2 where hd: "get_home_dir pf os st1 = Inr (status, home, st2)"
        by (cases t) simp
      note inv = get_home_dir_inv [OF hd]
      from assms cwd Some hd have ns: "\<not> status < 0"
        by (auto simp: get_pwd_tilde_def split: if_splits)
      from inv obtain h where dh: "deref home st2 = Inr h"
        by (auto simp: deref_def split: if_splits)
      show ?thesis
      proof (cases "tilde_collapse pf h pwd")
        case (Inl y)
        with assms cwd Some hd ns dh have "x = y" by (simp add: get_pwd_tilde_def)
        with Inl show ?thesis by (auto dest: tilde_collapse_fault)
      next
        case (Inr pwd1)
        from inv ns obtain st3 where
          fr: "(if status = HOME_DIR_ALLOC then free home st2 else Inr st2) = Inr st3"
          by (auto simp: free_def HOME_DIR_ALLOC_def dom_def split: if_splits)
        with assms cwd Some hd ns dh Inr have "pwd_result pf os base pwd1 ps st3 = Inl x"
          by (simp add: get_pwd_tilde_def)
        then show ?thesis by (auto dest: pwd_result_fault)
      qed
    qed
  qed
qed

lemma resolve_fault:
  assumes "resolve pf os el ps st = Inl x"
  shows "x = NullDeref \<and> type el = StrftimeDate \<and> arg el = None
       \<or> x = NullDeref \<and> HAVE_STRERRORNAME_NP pf \<and> (\<exists>e. strerrorname_np pf e = None)
       \<or> x = OutOfBounds \<and> (type el = PwdTrunc \<or> type el = PwdTruncBasename)"
  using assms
  by (cases "type el")
     (auto simp: resolve_def
        dest: get_formatted_time_faults get_hostname_fault get_tty_basename_fault
          get_parent_name_fault get_username_fault get_pwd_tilde_fault)

lemma owned_ok_ext:
  "owned_ok st ps st1 \<Longrightarrow>
   ext (brk st1) st1 st' \<Longrightarrow>
   owned_ok st ps st'"
  unfolding owned_ok_def ext_def by (auto split: if_splits)

lemma owned_addrs_Nil [simp]: "owned_addrs [] = []"
  by (simp add: owned_addrs_def)

lemma owned_addrs_Cons:
  "owned_addrs (e # es) =
     (if needs_free e then (case str e of Heap a \<Rightarrow> [a] | _ \<Rightarrow> []) @ owned_addrs es
      else owned_addrs es)"
  by (simp add: owned_addrs_def)

lemma owned_addrs_lower:
  "\<forall>ps \<in> set pss. owned_ok st ps st' \<Longrightarrow> x \<in> set (owned_addrs pss) \<Longrightarrow> brk st \<le> x"
  by (auto simp: owned_addrs_def owned_ok_def split: ptr.splits if_splits)

lemma explode_inv:
  "explode pf os cfg st = Inr (pss, st') \<Longrightarrow>
     ext (brk st) st st' \<and> length pss = length cfg \<and> (\<forall>ps \<in> set pss. owned_ok st ps st')
     \<and> sorted_wrt (<) (owned_addrs pss)"
proof (induction cfg arbitrary: st pss)
  case Nil
  then show ?case by (simp add: ext_refl)
next
  case (Cons el els)
  from Cons.prems obtain ps st1 pss' where
    r: "resolve pf os el fresh_slot st = Inr (ps, st1)" and
    e: "explode pf os els st1 = Inr (pss', st')" and
    p: "pss = ps # pss'"
    by (auto split: sum.splits)
  from resolve_inv [OF r] have r1: "ext (brk st) st st1" and r2: "owned_ok st ps st1" by simp_all
  from Cons.IH [OF e] have
    i1: "ext (brk st1) st1 st'" and i2: "length pss' = length els" and
    i3: "\<forall>ps \<in> set pss'. owned_ok st1 ps st'" and
    i4: "sorted_wrt (<) (owned_addrs pss')"
    by simp_all
  from r1 have le: "brk st \<le> brk st1" by (simp add: ext_def)
  have a: "ext (brk st) st st'"
    using r1 ext_mono [OF i1 le] by (rule ext_trans)
  have b: "owned_ok st ps st'" using r2 i1 by (rule owned_ok_ext)
  have c: "\<forall>ps \<in> set pss'. owned_ok st ps st'"
    using i3 le by (blast intro: owned_ok_mono)
  have d: "\<And>x. x \<in> set (owned_addrs pss') \<Longrightarrow> brk st1 \<le> x"
    using i3 by (rule owned_addrs_lower)
  have s: "sorted_wrt (<) (owned_addrs (ps # pss'))"
  proof (cases "needs_free ps")
    case True
    with r2 obtain a where "str ps = Heap a" "a < brk st1"
      by (auto simp: owned_ok_def)
    with True i4 d show ?thesis
      by (fastforce simp: owned_addrs_Cons)
  next
    case False
    with i4 show ?thesis by (simp add: owned_addrs_Cons)
  qed
  from a b c s i2 p show ?case by simp
qed

lemma free_loop_eq:
  "\<lbrakk>\<forall>ps \<in> set pss. needs_free ps \<longrightarrow> (\<exists>a y. str ps = Heap a \<and> heap st a = Some y);
    distinct (owned_addrs pss)\<rbrakk>
   \<Longrightarrow> free_loop pss st =
        Inr (st\<lparr>heap := heap st |` (- set (owned_addrs pss)), freed := freed st @ owned_addrs pss\<rparr>)"
proof (induction pss arbitrary: st)
  case Nil
  then show ?case by simp
next
  case (Cons e es)
  show ?case
  proof (cases "needs_free e")
    case False
    with Cons show ?thesis by (simp add: owned_addrs_Cons)
  next
    case True
    with Cons.prems obtain a y where a: "str e = Heap a" "heap st a = Some y"
      by auto
    let ?st1 = "st\<lparr>heap := (heap st)(a := None), freed := freed st @ [a]\<rparr>"
    from a have f: "free (str e) st = Inr ?st1" by (auto simp: free_def)
    from Cons.prems True a have na: "a \<notin> set (owned_addrs es)" and di: "distinct (owned_addrs es)"
      by (simp_all add: owned_addrs_Cons)
    have "\<forall>ps \<in> set es. needs_free ps \<longrightarrow> (\<exists>b y. str ps = Heap b \<and> heap ?st1 b = Some y)"
    proof (intro ballI impI)
      fix ps assume ps: "ps \<in> set es" "needs_free ps"
      with Cons.prems obtain b z where b: "str ps = Heap b" "heap st b = Some z" by auto
      with ps have "b \<in> set (owned_addrs es)"
        by (auto simp: owned_addrs_def)
      with na have "b \<noteq> a" by auto
      with b show "\<exists>b y. str ps = Heap b \<and> heap ?st1 b = Some y" by simp
    qed
    from Cons.IH [OF this di] True a f show ?thesis
      by (auto simp: owned_addrs_Cons restrict_map_def fun_eq_iff)
  qed
qed

subsection \<open>The whole array\<close>

lemma owned_strs:
  "\<forall>e \<in> set elems. needs_free e \<longrightarrow> (\<exists>a. str e = Heap a) \<Longrightarrow>
   map str (filter needs_free elems) = map Heap (owned_addrs elems)"
  by (induction elems) (auto simp: owned_addrs_Cons)

lemma make_exploded_prompt_inv:
  assumes "make_exploded_prompt pf os cfg st = Inr ((c, elems, n), st1)"
  shows "n = length cfg \<and> length elems = length cfg \<and> stdout st1 = stdout st
     \<and> (\<forall>ps \<in> set elems. owned_ok (st\<lparr>brk := Suc (brk st)\<rparr>) ps st1)
     \<and> sorted_wrt (<) (owned_addrs elems)
     \<and> (c = Null \<and> cfg = [] \<or> c = Heap (brk st) \<and> (\<exists>y. heap st1 (brk st) = Some y))"
proof -
  obtain elements st0 where m: "malloc os st = (elements, st0)"
    by (cases "malloc os st")
  with assms have ex: "explode pf os cfg st0 = Inr (elems, st1)" and c: "c = elements"
    and n: "n = length cfg" and nz: "elements = Null \<longrightarrow> cfg = []"
    by (auto simp: make_exploded_prompt_def Let_def split: if_splits sum.splits)
  from m have b0: "brk st0 = Suc (brk st)" and s0: "stdout st0 = stdout st"
    and el: "elements = Null \<or> elements = Heap (brk st) \<and> heap st0 (brk st) = Some []"
    by (auto simp: malloc_def split: if_splits)
  from explode_inv [OF ex] have
    i1: "ext (brk st0) st0 st1" and i2: "length elems = length cfg" and
    i3: "\<forall>ps \<in> set elems. owned_ok st0 ps st1" and i4: "sorted_wrt (<) (owned_addrs elems)"
    by simp_all
  from i3 b0 have o: "\<forall>ps \<in> set elems. owned_ok (st\<lparr>brk := Suc (brk st)\<rparr>) ps st1"
    by (auto simp: owned_ok_def)
  from i1 b0 have "heap st1 (brk st) = heap st0 (brk st)" and "stdout st1 = stdout st0"
    by (simp_all add: ext_def)
  with el nz c n i2 i4 o s0 show ?thesis by auto
qed

lemma exploded_prompt_free_eq:
  assumes pre: "\<forall>ps \<in> set elems. needs_free ps \<longrightarrow> (\<exists>a y. str ps = Heap a \<and> heap st a = Some y)"
    and dist: "distinct (owned_addrs elems)"
    and c: "c = Null \<or> (\<exists>a y. c = Heap a \<and> heap st a = Some y \<and> a \<notin> set (owned_addrs elems))"
  shows "exploded_prompt_free c elems (length elems) st =
           Inr (st\<lparr>heap := heap st |` (- set (owned_addrs elems @ block_of c)),
                  freed := freed st @ owned_addrs elems @ block_of c\<rparr>)"
proof -
  let ?st' = "st\<lparr>heap := heap st |` (- set (owned_addrs elems)), freed := freed st @ owned_addrs elems\<rparr>"
  from free_loop_eq [OF pre dist] have fl: "free_loop elems st = Inr ?st'" .
  from c have "free c ?st' =
      Inr (st\<lparr>heap := heap st |` (- set (owned_addrs elems @ block_of c)),
             freed := freed st @ owned_addrs elems @ block_of c\<rparr>)"
    by (auto simp: free_def block_of_def restrict_map_def dom_def fun_eq_iff)
  with fl show ?thesis by (simp add: exploded_prompt_free_def)
qed

text \<open>
  \<open>make_exploded_prompt\<close> fails to return in four cases only: the array
  itself is refused, the error helper meets a code without a name, a
  \<open>StrftimeDate\<close> element has no pattern, or the tilde loop of a directory
  element overruns.
\<close>

lemma explode_fault:
  "explode pf os cfg st = Inl x \<Longrightarrow>
     x = NullDeref \<and> (\<exists>el \<in> set cfg. type el = StrftimeDate \<and> arg el = None)
   \<or> x = NullDeref \<and> HAVE_STRERRORNAME_NP pf \<and> (\<exists>e. strerrorname_np pf e = None)
   \<or> x = OutOfBounds \<and> (\<exists>el \<in> set cfg. type el = PwdTrunc \<or> type el = PwdTruncBasename)"
proof (induction cfg arbitrary: st)
  case Nil
  then show ?case by simp
next
  case (Cons el els)
  show ?case
  proof (cases "resolve pf os el fresh_slot st")
    case (Inl y)
    with Cons.prems have "x = y" by simp
    with Inl resolve_fault [of pf os el fresh_slot st x] show ?thesis by auto
  next
    case (Inr r)
    obtain ps st1 where r: "r = (ps, st1)" by (cases r)
    with Inr Cons.prems have "explode pf os els st1 = Inl x"
      by (auto split: sum.splits)
    from Cons.IH [OF this] show ?thesis by auto
  qed
qed

lemma make_exploded_prompt_fault:
  assumes "make_exploded_prompt pf os cfg st = Inl x"
  shows "x = NullDeref \<and> cfg \<noteq> [] \<and> \<not> os_malloc os (brk st)
       \<or> x = NullDeref \<and> HAVE_STRERRORNAME_NP pf \<and> (\<exists>e. strerrorname_np pf e = None)
       \<or> x = NullDeref \<and> (\<exists>el \<in> set cfg. type el = StrftimeDate \<and> arg el = None)
       \<or> x = OutOfBounds \<and> (\<exists>el \<in> set cfg. type el = PwdTrunc \<or> type el = PwdTruncBasename)"
proof (cases "os_malloc os (brk st) \<or> cfg = []")
  case True
  with assms obtain st1 where "explode pf os cfg st1 = Inl x"
    by (auto simp: make_exploded_prompt_def malloc_def Let_def split: if_splits sum.splits prod.splits)
  from explode_fault [OF this] show ?thesis by blast
next
  case False
  with assms show ?thesis
    by (auto simp: make_exploded_prompt_def malloc_def Let_def split: if_splits sum.splits prod.splits)
qed

text \<open>
  Claim C1: for every element kind and every path through its resolver the
  flag \<open>needs_free\<close> is true exactly when the string of the fragment is a
  buffer allocated for it, which is freshly allocated and still live when
  \<open>make_exploded_prompt\<close> returns. Consequently \<open>exploded_prompt_free\<close>,
  applied to what \<open>make_exploded_prompt\<close> returns, runs without an invalid
  or repeated \<open>free\<close>; the blocks it releases are, in order, the strings of
  the fragments flagged \<open>needs_free\<close>, each once, followed by the array
  itself. Borrowed strings are never heap blocks, so none of them is released.
\<close>

theorem ownership_and_release:
  assumes "make_exploded_prompt pf os cfg st = Inr ((c, elems, n), st1)"
  shows "(\<forall>e \<in> set elems. needs_free e = (\<exists>a. str e = Heap a))
       \<and> (\<forall>e \<in> set elems. \<forall>a. str e = Heap a \<longrightarrow> brk st < a \<and> a \<in> dom (heap st1))
       \<and> (\<exists>st2 as. exploded_prompt_free c elems n st1 = Inr st2
              \<and> map str (filter needs_free elems) = map Heap as \<and> distinct as
              \<and> freed st2 = freed st1 @ as @ (case c of Heap a \<Rightarrow> [a] | _ \<Rightarrow> [])
              \<and> (\<forall>a. c = Heap a \<longrightarrow> a \<notin> set as))"
proof -
  note inv = make_exploded_prompt_inv [OF assms]
  from inv have ok: "\<forall>ps \<in> set elems. owned_ok (st\<lparr>brk := Suc (brk st)\<rparr>) ps st1"
    and n: "n = length elems" and srt: "sorted_wrt (<) (owned_addrs elems)"
    and c: "c = Null \<and> cfg = [] \<or> c = Heap (brk st) \<and> (\<exists>y. heap st1 (brk st) = Some y)"
    by simp_all
  have flag: "\<forall>e \<in> set elems. needs_free e = (\<exists>a. str e = Heap a)"
    using ok by (auto simp: owned_ok_def split: if_splits)
  have live: "\<forall>e \<in> set elems. \<forall>a. str e = Heap a \<longrightarrow> brk st < a \<and> a \<in> dom (heap st1)"
    using ok by (auto simp: owned_ok_def split: if_splits)
  have dist: "distinct (owned_addrs elems)"
    using srt by (simp add: strict_sorted_iff)
  have above: "\<forall>x \<in> set (owned_addrs elems). brk st < x"
    using owned_addrs_lower [OF ok] by fastforce
  have pre: "\<forall>ps \<in> set elems. needs_free ps \<longrightarrow> (\<exists>a y. str ps = Heap a \<and> heap st1 a = Some y)"
    using ok by (auto simp: owned_ok_def split: if_splits)
  let ?st' = "st1\<lparr>heap := heap st1 |` (- set (owned_addrs elems)), freed := freed st1 @ owned_addrs elems\<rparr>"
  from free_loop_eq [OF pre dist] have fl: "free_loop elems st1 = Inr ?st'" .
  have nin: "brk st \<notin> set (owned_addrs elems)"
  proof
    assume "brk st \<in> set (owned_addrs elems)"
    with above have "brk st < brk st" by blast
    then show False by simp
  qed
  from c nin have fc: "free c ?st' = Inr (?st'\<lparr>heap := (heap ?st')(brk st := None), freed := freed ?st' @ [brk st]\<rparr>) \<and> c = Heap (brk st)
      \<or> free c ?st' = Inr ?st' \<and> c = Null"
    by (auto simp: free_def restrict_map_def dom_def)
  from fl fc n have "\<exists>st2. exploded_prompt_free c elems n st1 = Inr st2
      \<and> freed st2 = freed st1 @ owned_addrs elems @ (case c of Heap a \<Rightarrow> [a] | _ \<Rightarrow> [])"
    by (auto simp: exploded_prompt_free_def)
  moreover from flag have "map str (filter needs_free elems) = map Heap (owned_addrs elems)"
    by (intro owned_strs) simp
  moreover from c nin have "\<forall>a. c = Heap a \<longrightarrow> a \<notin> set (owned_addrs elems)"
    by auto
  ultimately show ?thesis using flag live dist by blast
qed

theorem ownership_and_release_witness:
  "make_exploded_prompt darwin world demo startup =
     Inr ((Heap 0,
           [\<lparr>str = Heap 2, needs_free = True\<rparr>, \<lparr>str = Static ''@'', needs_free = False\<rparr>,
            \<lparr>str = Heap 3, needs_free = True\<rparr>, \<lparr>str = Static '' '', needs_free = False\<rparr>,
            \<lparr>str = Static ''$'', needs_free = False\<rparr>], 5),
          \<lparr>errno = 0, heap = [0 \<mapsto> [], Suc (Suc 0) \<mapsto> ''alice'', Suc (Suc (Suc 0)) \<mapsto> ''box''],
           brk = 4, freed = [1], stdout = []\<rparr>)
   \<and> (\<exists>st2. exploded_prompt_free (Heap 0)
           [\<lparr>str = Heap 2, needs_free = True\<rparr>, \<lparr>str = Static ''@'', needs_free = False\<rparr>,
            \<lparr>str = Heap 3, needs_free = True\<rparr>, \<lparr>str = Static '' '', needs_free = False\<rparr>,
            \<lparr>str = Static ''$'', needs_free = False\<rparr>] 5
           \<lparr>errno = 0, heap = [0 \<mapsto> [], Suc (Suc 0) \<mapsto> ''alice'', Suc (Suc (Suc 0)) \<mapsto> ''box''],
            brk = 4, freed = [1], stdout = []\<rparr> = Inr st2
         \<and> freed st2 = [1, 2, 3, 0])"
proof -
  have run: "make_exploded_prompt darwin world demo startup =
     Inr ((Heap 0,
           [\<lparr>str = Heap 2, needs_free = True\<rparr>, \<lparr>str = Static ''@'', needs_free = False\<rparr>,
            \<lparr>str = Heap 3, needs_free = True\<rparr>, \<lparr>str = Static '' '', needs_free = False\<rparr>,
            \<lparr>str = Static ''$'', needs_free = False\<rparr>], 5),
          \<lparr>errno = 0, heap = [0 \<mapsto> [], Suc (Suc 0) \<mapsto> ''alice'', Suc (Suc (Suc 0)) \<mapsto> ''box''],
           brk = 4, freed = [1], stdout = []\<rparr>)"
    by (simp add: model_defs demo_def world_def darwin_def Let_def)
  from ownership_and_release [OF run]
  have "\<exists>st2. exploded_prompt_free (Heap 0)
           [\<lparr>str = Heap 2, needs_free = True\<rparr>, \<lparr>str = Static ''@'', needs_free = False\<rparr>,
            \<lparr>str = Heap 3, needs_free = True\<rparr>, \<lparr>str = Static '' '', needs_free = False\<rparr>,
            \<lparr>str = Static ''$'', needs_free = False\<rparr>] 5
           \<lparr>errno = 0, heap = [0 \<mapsto> [], Suc (Suc 0) \<mapsto> ''alice'', Suc (Suc (Suc 0)) \<mapsto> ''box''],
            brk = 4, freed = [1], stdout = []\<rparr> = Inr st2 \<and> freed st2 = [1, 2, 3, 0]"
    by (clarsimp simp: Cons_eq_map_conv)
  with run show ?thesis by blast
qed

section \<open>The output of the program\<close>

lemma deref_stdout [simp]: "deref p (st\<lparr>stdout := s\<rparr>) = deref p st"
  by (cases p) (simp_all add: deref_def)

declare print_loop.simps [simp del] tilde_loop.simps [simp del]

lemma print_loop_eq:
  assumes "map (\<lambda>e. deref (str e) st) elems = map Inr texts" and "i \<le> length elems"
  shows "print_loop i (length elems) elems st =
           Inr (st\<lparr>stdout := stdout st @ concat (drop i texts)
                   @ (if i < length elems then [CHR 0x0A] else [])\<rparr>)"
  using assms
proof (induction "length elems - i" arbitrary: i st)
  case 0
  then have "i = length elems" by simp
  moreover from "0.prems" have "length texts = length elems"
    by (metis length_map)
  ultimately show ?case by (subst print_loop.simps) simp
next
  case (Suc k)
  then have lt: "i < length elems" by simp
  from Suc.prems have len: "length texts = length elems"
    by (metis length_map)
  from Suc.prems lt have d: "deref (str (elems ! i)) st = Inr (texts ! i)"
    by (metis len nth_map)
  let ?st1 = "st\<lparr>stdout := stdout st @ texts ! i @ (if i = length elems - 1 then [CHR 0x0A] else [])\<rparr>"
  have m: "map (\<lambda>e. deref (str e) ?st1) elems = map Inr texts"
    using Suc.prems by simp
  from Suc.hyps lt have k: "k = length elems - Suc i" by simp
  have step: "print_loop i (length elems) elems st = print_loop (Suc i) (length elems) elems ?st1"
    using lt d by (subst print_loop.simps) simp
  have dr: "drop i texts = texts ! i # drop (Suc i) texts"
    using lt len by (simp add: Cons_nth_drop_Suc)
  have ih: "print_loop (Suc i) (length elems) elems ?st1 =
          Inr (?st1\<lparr>stdout := stdout ?st1 @ concat (drop (Suc i) texts)
                  @ (if Suc i < length elems then [CHR 0x0A] else [])\<rparr>)"
    using lt by (intro Suc.hyps(1) [OF k m]) simp
  show ?case
  proof (cases "Suc i < length elems")
    case True
    then have "i \<noteq> length elems - 1" by simp
    with step ih dr lt True show ?thesis by simp
  next
    case False
    with lt have si: "length elems = Suc i" by simp
    with len have "drop (Suc i) texts = []" by simp
    with step ih dr si show ?thesis by simp
  qed
qed

text \<open>
  For a catalog that is not empty, when resolution completes and every
  fragment has a string (none is \<open>NULL\<close>), the resolved sequence has the
  length of the catalog and the program writes to standard output exactly
  the strings of the fragments, concatenated in catalog order with no
  separator, followed by one newline.
\<close>

lemma main_output:
  assumes ne: "cfg \<noteq> []"
    and run: "make_exploded_prompt pf os cfg startup = Inr ((c, elems, n), st1)"
    and nonnull: "\<forall>e \<in> set elems. str e \<noteq> Null"
  shows "length elems = length cfg \<and>
         (\<exists>texts st3. map (\<lambda>e. deref (str e) st1) elems = map Inr texts \<and>
            main pf os cfg = Inr st3 \<and> stdout st3 = concat texts @ [CHR 0x0A])"
proof -
  note inv = make_exploded_prompt_inv [OF run]
  from inv have ok: "\<forall>ps \<in> set elems. owned_ok (startup\<lparr>brk := Suc (brk startup)\<rparr>) ps st1"
    and n: "n = length elems" and len: "length elems = length cfg"
    and srt: "sorted_wrt (<) (owned_addrs elems)" and out: "stdout st1 = []"
    and c: "c = Null \<and> cfg = [] \<or> c = Heap (brk startup) \<and> (\<exists>y. heap st1 (brk startup) = Some y)"
    by (simp_all add: startup_def)
  have "\<forall>e \<in> set elems. \<exists>s. deref (str e) st1 = Inr s"
  proof
    fix e assume e: "e \<in> set elems"
    with ok have "owned_ok (startup\<lparr>brk := Suc (brk startup)\<rparr>) e st1" by blast
    with nonnull e show "\<exists>s. deref (str e) st1 = Inr s"
      by (cases "str e") (auto simp: owned_ok_def deref_def split: if_splits)
  qed
  then have "\<exists>texts. map (\<lambda>e. deref (str e) st1) elems = map Inr texts"
    by (induction elems) (auto simp: map_eq_Cons_conv Cons_eq_map_conv)
  then obtain texts where texts: "map (\<lambda>e. deref (str e) st1) elems = map Inr texts" ..
  let ?st2 = "st1\<lparr>stdout := concat texts @ [CHR 0x0A]\<rparr>"
  from ne len have pos: "0 < length elems" by simp
  from print_loop_eq [OF texts, of 0] pos out
  have pl: "print_loop 0 (length elems) elems st1 = Inr ?st2" by simp
  have pre: "\<forall>ps \<in> set elems. needs_free ps \<longrightarrow> (\<exists>a y. str ps = Heap a \<and> heap ?st2 a = Some y)"
    using ok by (auto simp: owned_ok_def split: if_splits)
  have dist: "distinct (owned_addrs elems)"
    using srt by (simp add: strict_sorted_iff)
  have nin: "brk startup \<notin> set (owned_addrs elems)"
  proof
    assume "brk startup \<in> set (owned_addrs elems)"
    with owned_addrs_lower [OF ok] have "Suc (brk startup) \<le> brk startup" by fastforce
    then show False by simp
  qed
  from c ne nin have c': "c = Null \<or> (\<exists>a y. c = Heap a \<and> heap ?st2 a = Some y \<and> a \<notin> set (owned_addrs elems))"
    by auto
  from exploded_prompt_free_eq [OF pre dist c'] run pl n
  have "\<exists>st3. main pf os cfg = Inr st3 \<and> stdout st3 = concat texts @ [CHR 0x0A]"
    by (simp add: main_def)
  with texts len show ?thesis by blast
qed

lemma main_output_greeting:
  "greeting \<noteq> [] \<and>
   make_exploded_prompt darwin
     (world\<lparr>os_getpwuid_r := (\<lambda>u n. PwEntry \<lparr>pw_name = ''bob'', pw_dir = ''/home/bob''\<rparr>)\<rparr>)
     greeting startup =
     Inr ((Heap 0,
           [\<lparr>str = Static ''hi '', needs_free = False\<rparr>, \<lparr>str = Heap 2, needs_free = True\<rparr>,
            \<lparr>str = Static ''!'', needs_free = False\<rparr>], 3),
          \<lparr>errno = 0, heap = [0 \<mapsto> [], Suc (Suc 0) \<mapsto> ''bob''], brk = 3, freed = [1], stdout = []\<rparr>)
   \<and> map_sum id stdout
        (main darwin
          (world\<lparr>os_getpwuid_r := (\<lambda>u n. PwEntry \<lparr>pw_name = ''bob'', pw_dir = ''/home/bob''\<rparr>)\<rparr>)
          greeting)
       = Inr (''hi bob!'' @ [CHR 0x0A])"
proof -
  let ?os = "world\<lparr>os_getpwuid_r := (\<lambda>u n. PwEntry \<lparr>pw_name = ''bob'', pw_dir = ''/home/bob''\<rparr>)\<rparr>"
  let ?elems = "[\<lparr>str = Static ''hi '', needs_free = False\<rparr>, \<lparr>str = Heap 2, needs_free = True\<rparr>,
            \<lparr>str = Static ''!'', needs_free = False\<rparr>]"
  let ?st1 = "\<lparr>errno = 0, heap = [0 \<mapsto> [], Suc (Suc 0) \<mapsto> ''bob''], brk = 3, freed = [1], stdout = []\<rparr>"
  have ne: "greeting \<noteq> []" by (simp add: greeting_def)
  have run: "make_exploded_prompt darwin ?os greeting startup = Inr ((Heap 0, ?elems, 3), ?st1)"
    by (simp add: model_defs greeting_def world_def darwin_def Let_def)
  have nonnull: "\<forall>e \<in> set ?elems. str e \<noteq> Null" by simp
  from main_output [OF ne run nonnull] obtain texts st3 where
    t: "map (\<lambda>e. deref (str e) ?st1) ?elems = map Inr texts" and
    m: "main darwin ?os greeting = Inr st3" and o: "stdout st3 = concat texts @ [CHR 0x0A]"
    by blast
  from t have "texts = [''hi '', ''bob'', ''!'']"
    by (auto simp: deref_def Cons_eq_map_conv)
  with m o have "map_sum id stdout (main darwin ?os greeting) = Inr (''hi bob!'' @ [CHR 0x0A])"
    by simp
  with ne run show ?thesis by blast
qed

section \<open>The time resolvers\<close>

lemma resolve_time_kind:
  "time_pattern el = Some fmt \<Longrightarrow> resolve pf os el ps st = get_formatted_time pf os (Some fmt) ps st"
  by (cases "type el") (auto simp: time_pattern_def resolve_def)

lemma get_formatted_time_clock_failure:
  "time os st = (-1, st1) \<Longrightarrow>
   get_formatted_time pf os fmt ps st = set_error pf os ''!TIME!'' (ps\<lparr>needs_free := True\<rparr>) st1"
  by (simp add: get_formatted_time_def)

lemma time_heap:
  "time os st = (clock, st1) \<Longrightarrow>
   heap st1 = heap st \<and> brk st1 = brk st \<and> freed st1 = freed st"
  by (auto simp: time_def split: answer.splits)

lemma get_formatted_time_formats:
  assumes "time os st = (clock, st1)" "clock \<noteq> -1" "os_malloc os (brk st)"
  shows "get_formatted_time pf os (Some fmt) ps st =
     (let e = os_strftime os fmt clock in
      if e = [] \<or> 50 \<le> length e
      then Inr (ps\<lparr>needs_free := False, str := Static ''!STRFTIME!''\<rparr>,
                st1\<lparr>heap := (heap st1)(brk st := None), brk := Suc (brk st),
                    freed := freed st @ [brk st]\<rparr>)
      else Inr (ps\<lparr>needs_free := True, str := Heap (brk st)\<rparr>,
                st1\<lparr>heap := (heap st1)(brk st \<mapsto> e), brk := Suc (brk st)\<rparr>))"
  using assms time_heap [OF assms(1)]
  by (auto simp: get_formatted_time_def malloc_or_error_def malloc_def strftime_def free_def poke_def
        MAX_STRFTIME_SIZE_def Let_def)

lemma get_formatted_time_part_000_formats:
  assumes "time os st = (clock, st1)" "clock \<noteq> -1" "os_malloc os (brk st)"
  shows "get_formatted_time_part_000 pf os (Some fmt) st =
     (let e = os_strftime os fmt clock in
      if e = [] \<or> 50 \<le> length e
      then Inr (Static ''!STRFTIME!'', False,
                st1\<lparr>heap := (heap st1)(brk st := None), brk := Suc (brk st),
                    freed := freed st @ [brk st]\<rparr>)
      else Inr (Heap (brk st), True,
                st1\<lparr>heap := (heap st1)(brk st \<mapsto> e), brk := Suc (brk st)\<rparr>))"
  using assms time_heap [OF assms(1)]
  by (auto simp: get_formatted_time_part_000_def malloc_def strftime_def free_def poke_def
        MAX_STRFTIME_SIZE_def Let_def)

lemma malloc_or_error_refused:
  "\<not> os_malloc os (brk st) \<Longrightarrow>
   malloc_or_error os ps st =
     (Null, ps\<lparr>needs_free := False, str := Static ''!MALLOC!''\<rparr>, st\<lparr>errno := ENOMEM, brk := Suc (brk st)\<rparr>)"
  by (simp add: malloc_or_error_def malloc_def)

text \<open>
  When the buffer of 50 bytes is refused, \<open>malloc_or_error\<close> writes the
  token \<open>!MALLOC!\<close> and the assignment of line 190 replaces it by the
  \<open>NULL\<close> it returns.
\<close>

lemma get_formatted_time_buffer_refused:
  "time os st = (clock, st1) \<Longrightarrow> clock \<noteq> -1 \<Longrightarrow> \<not> os_malloc os (brk st) \<Longrightarrow>
   get_formatted_time pf os fmt ps st =
     Inr (ps\<lparr>needs_free := False, str := Null\<rparr>, st1\<lparr>errno := ENOMEM, brk := Suc (brk st)\<rparr>)"
  using time_heap [of os st clock st1]
  by (simp add: get_formatted_time_def malloc_or_error_refused)

text \<open>
  Claim C4, as stated, fails: it leaves two outcomes once the clock has
  been read, the constant \<open>!STRFTIME!\<close> and the owned formatted buffer.
  With the clock read and the buffer of 50 bytes refused the fragment of a
  time element is neither: its string is \<open>NULL\<close> and it is not owned. The
  copy of the earlier revision does not return at all: \<open>strftime\<close> writes
  through \<open>NULL\<close>.
\<close>

theorem time_buffer_refused:
  "time (world\<lparr>os_malloc := (\<lambda>k. False)\<rparr>) startup = (1716738734, startup)
   \<and> map_sum id fst (resolve darwin (world\<lparr>os_malloc := (\<lambda>k. False)\<rparr>)
                       \<lparr>type = HourMinute24, arg = None\<rparr> fresh_slot startup)
       = Inr \<lparr>str = Null, needs_free = False\<rparr>
   \<and> get_formatted_time_part_000 darwin (world\<lparr>os_malloc := (\<lambda>k. False)\<rparr>) (Some ''%H:%M'') startup
       = Inl NullDeref"
  by (simp add: resolve_def get_formatted_time_def get_formatted_time_part_000_def
        malloc_or_error_def malloc_def time_def world_def fresh_slot_def)

text \<open>
  Claim C4, amended: for the date and time kinds with their fixed patterns
  and for the custom kind with any pattern, \<open>resolve\<close> does this. When the
  clock read fails (\<open>time\<close> returns \<open>-1\<close>), the fragment is what the error
  helper returns for the default token \<open>!TIME!\<close>. Otherwise, when the
  buffer of 50 bytes is granted, the time is formatted into it: when
  \<open>strftime\<close> produces no output (the expansion is empty or does not fit
  into the 50 bytes) the buffer is released and the fragment is the
  borrowed constant \<open>!STRFTIME!\<close> with \<open>needs_free = false\<close>; otherwise the
  fragment is the buffer with the formatted time and \<open>needs_free = true\<close>.
  The copy of \<open>get_formatted_time\<close> in the earlier revision does the same
  with the pattern it is given.
\<close>

theorem time_kinds:
  assumes "time_pattern el = Some fmt" and "time os st = (clock, st1)"
  shows "(clock = -1 \<longrightarrow>
            map_sum id (\<lambda>(ps', st'). (str ps', needs_free ps', st')) (resolve pf os el ps st)
              = format_error pf os ''!TIME!'' (errno st1) st1)
       \<and> (clock \<noteq> -1 \<and> os_malloc os (brk st) \<longrightarrow>
            (let e = os_strftime os fmt clock in
             if e = [] \<or> 50 \<le> length e
             then \<exists>ps' st'. resolve pf os el ps st = Inr (ps', st') \<and>
                    str ps' = Static ''!STRFTIME!'' \<and> \<not> needs_free ps' \<and>
                    heap st' (brk st) = None \<and> freed st' = freed st @ [brk st]
             else \<exists>ps' st'. resolve pf os el ps st = Inr (ps', st') \<and>
                    str ps' = Heap (brk st) \<and> needs_free ps' \<and> heap st' (brk st) = Some e))
       \<and> (clock = -1 \<longrightarrow>
            get_formatted_time_part_000 pf os (Some fmt) st
              = format_error_part_000 pf os ''!TIME!'' (errno st1) st1)
       \<and> (clock \<noteq> -1 \<and> os_malloc os (brk st) \<longrightarrow>
            (let e = os_strftime os fmt clock in
             if e = [] \<or> 50 \<le> length e
             then \<exists>st'. get_formatted_time_part_000 pf os (Some fmt) st
                      = Inr (Static ''!STRFTIME!'', False, st') \<and>
                    heap st' (brk st) = None \<and> freed st' = freed st @ [brk st]
             else \<exists>st'. get_formatted_time_part_000 pf os (Some fmt) st
                      = Inr (Heap (brk st), True, st') \<and> heap st' (brk st) = Some e))"
proof (intro conjI impI)
  assume "clock = -1"
  with assms(2) have "get_formatted_time pf os (Some fmt) ps st
      = set_error pf os ''!TIME!'' (ps\<lparr>needs_free := True\<rparr>) st1"
    by (simp add: get_formatted_time_clock_failure)
  then show "map_sum id (\<lambda>(ps', st'). (str ps', needs_free ps', st')) (resolve pf os el ps st)
              = format_error pf os ''!TIME!'' (errno st1) st1"
    by (simp add: resolve_time_kind [OF assms(1)] set_error_def split: sum.splits prod.splits)
next
  assume "clock \<noteq> -1 \<and> os_malloc os (brk st)"
  with get_formatted_time_formats [OF assms(2), of pf fmt ps]
  show "let e = os_strftime os fmt clock in
             if e = [] \<or> 50 \<le> length e
             then \<exists>ps' st'. resolve pf os el ps st = Inr (ps', st') \<and>
                    str ps' = Static ''!STRFTIME!'' \<and> \<not> needs_free ps' \<and>
                    heap st' (brk st) = None \<and> freed st' = freed st @ [brk st]
             else \<exists>ps' st'. resolve pf os el ps st = Inr (ps', st') \<and>
                    str ps' = Heap (brk st) \<and> needs_free ps' \<and> heap st' (brk st) = Some e"
    by (simp add: resolve_time_kind [OF assms(1)] Let_def)
next
  assume "clock = -1"
  with assms(2) show "get_formatted_time_part_000 pf os (Some fmt) st
              = format_error_part_000 pf os ''!TIME!'' (errno st1) st1"
    by (simp add: get_formatted_time_part_000_def)
next
  assume "clock \<noteq> -1 \<and> os_malloc os (brk st)"
  with get_formatted_time_part_000_formats [OF assms(2), of pf fmt]
  show "let e = os_strftime os fmt clock in
             if e = [] \<or> 50 \<le> length e
             then \<exists>st'. get_formatted_time_part_000 pf os (Some fmt) st
                      = Inr (Static ''!STRFTIME!'', False, st') \<and>
                    heap st' (brk st) = None \<and> freed st' = freed st @ [brk st]
             else \<exists>st'. get_formatted_time_part_000 pf os (Some fmt) st
                      = Inr (Heap (brk st), True, st') \<and> heap st' (brk st) = Some e"
    by (simp add: Let_def)
qed

theorem time_kinds_witness:
  "time_pattern \<lparr>type = HourMinute24, arg = None\<rparr> = Some ''%H:%M''
   \<and> time world startup = (1716738734, startup)
   \<and> os_malloc world (brk startup)
   \<and> (\<exists>ps' st'. resolve darwin world \<lparr>type = HourMinute24, arg = None\<rparr> fresh_slot startup = Inr (ps', st')
          \<and> str ps' = Heap 0 \<and> needs_free ps' \<and> heap st' 0 = Some ''21:11'')
   \<and> (\<exists>ps' st'. resolve darwin (world\<lparr>os_strftime := (\<lambda>fmt t. [])\<rparr>) \<lparr>type = HourMinute24, arg = None\<rparr>
                   fresh_slot startup = Inr (ps', st')
          \<and> str ps' = Static ''!STRFTIME!'' \<and> \<not> needs_free ps' \<and> heap st' 0 = None \<and> freed st' = [0])
   \<and> time (world\<lparr>os_time := Failed 22\<rparr>) startup = (-1, startup\<lparr>errno := 22\<rparr>)
   \<and> map_sum id (\<lambda>(ps', st'). (str ps', needs_free ps', st'))
        (resolve darwin (world\<lparr>os_time := Failed 22\<rparr>) \<lparr>type = HourMinute24, arg = None\<rparr>
           fresh_slot startup)
       = Inr (Static ''!TIME!'', False, startup\<lparr>errno := 22\<rparr>)
   \<and> map_sum id (\<lambda>(ps', st'). (str ps', needs_free ps', heap st' 0))
        (resolve glibc (world\<lparr>os_time := Failed 22\<rparr>) \<lparr>type = HourMinute24, arg = None\<rparr>
           fresh_slot startup)
       = Inr (Heap 0, True, Some ''!EINVAL'')
   \<and> (\<exists>st'. get_formatted_time_part_000 darwin world (Some ''%H:%M'') startup = Inr (Heap 0, True, st')
          \<and> heap st' 0 = Some ''21:11'')"
proof -
  let ?el = "\<lparr>type = HourMinute24, arg = None\<rparr>"
  have p: "time_pattern ?el = Some ''%H:%M''" by (simp add: time_pattern_def)
  have t1: "time world startup = (1716738734, startup)" by (simp add: time_def world_def)
  have t2: "time (world\<lparr>os_time := Failed 22\<rparr>) startup = (-1, startup\<lparr>errno := 22\<rparr>)"
    by (simp add: time_def)
  have t3: "time (world\<lparr>os_strftime := (\<lambda>fmt t. [])\<rparr>) startup = (1716738734, startup)"
    by (simp add: time_def world_def)
  have m: "os_malloc world (brk startup)" by (simp add: world_def)
  from time_kinds [OF p t1, of darwin fresh_slot] m
  have a: "\<exists>ps' st'. resolve darwin world ?el fresh_slot startup = Inr (ps', st')
          \<and> str ps' = Heap 0 \<and> needs_free ps' \<and> heap st' 0 = Some ''21:11''"
    by (simp add: world_def startup_def Let_def)
  from time_kinds [OF p t3, of darwin fresh_slot]
  have c: "\<exists>ps' st'. resolve darwin (world\<lparr>os_strftime := (\<lambda>fmt t. [])\<rparr>) ?el fresh_slot startup = Inr (ps', st')
          \<and> str ps' = Static ''!STRFTIME!'' \<and> \<not> needs_free ps' \<and> heap st' 0 = None \<and> freed st' = [0]"
    by (simp add: world_def startup_def Let_def)
  from time_kinds [OF p t2, of darwin fresh_slot]
  have b: "map_sum id (\<lambda>(ps', st'). (str ps', needs_free ps', st'))
        (resolve darwin (world\<lparr>os_time := Failed 22\<rparr>) ?el fresh_slot startup)
       = Inr (Static ''!TIME!'', False, startup\<lparr>errno := 22\<rparr>)"
    by (simp add: format_error_default darwin_def)
  from time_kinds [OF p t2, of glibc fresh_slot]
  have "map_sum id (\<lambda>(ps', st'). (str ps', needs_free ps', st'))
        (resolve glibc (world\<lparr>os_time := Failed 22\<rparr>) ?el fresh_slot startup)
       = Inr (Heap 0, True, startup\<lparr>errno := 22, heap := [0 \<mapsto> ''!EINVAL''], brk := Suc 0\<rparr>)"
    by (simp add: format_error_owned [where name = "''EINVAL''"] glibc_def errname_def world_def
          startup_def)
  then have d: "map_sum id (\<lambda>(ps', st'). (str ps', needs_free ps', heap st' 0))
        (resolve glibc (world\<lparr>os_time := Failed 22\<rparr>) ?el fresh_slot startup)
       = Inr (Heap 0, True, Some ''!EINVAL'')"
    by (cases "resolve glibc (world\<lparr>os_time := Failed 22\<rparr>) ?el fresh_slot startup") auto
  from time_kinds [OF p t1, of darwin fresh_slot] m
  have e: "\<exists>st'. get_formatted_time_part_000 darwin world (Some ''%H:%M'') startup = Inr (Heap 0, True, st')
          \<and> heap st' 0 = Some ''21:11''"
    by (simp add: world_def startup_def Let_def)
  from p t1 t2 m a b c d e show ?thesis by blast
qed

section \<open>The error code is shared by the elements\<close>

text \<open>
  Claim C9: the failure of one element changes only its own fragment. Two
  pairs of runs over the catalog of a terminal name followed by a user name,
  which differ only in the answer of \<open>isatty\<close>. On the glibc-like platform
  \<open>getpwuid_r\<close> returns the error 5 in both runs and leaves \<open>errno\<close>
  alone: the user-name fragment names error 0 when the terminal query
  succeeds and \<open>ENOTTY\<close> when it fails, because \<open>get_username\<close> passes
  \<open>errno\<close> and not the returned status to the error helper. On the
  macOS-like platform \<open>sysconf\<close> fails with error 22 in both runs: the
  user-name fragment is \<open>!SYSCONF!\<close> when the terminal query succeeds and
  \<open>!NOGETPWRSIZEMAX!\<close> when it fails with the same error 22, because the
  resolver compares \<open>errno\<close> with its value on entry.
\<close>

theorem errno_leaks_between_elements:
  "fragments glibc (world\<lparr>os_getpwuid_r := (\<lambda>u n. PwError 5 None)\<rparr>) tty_and_user
     = Inr [(Inr ''3'', True), (Inr ''!0'', True)]
   \<and> fragments glibc (world\<lparr>os_getpwuid_r := (\<lambda>u n. PwError 5 None), os_isatty := Failed 25\<rparr>) tty_and_user
     = Inr [(Inr ''!ENOTTY'', True), (Inr ''!ENOTTY'', True)]
   \<and> fragments darwin (world\<lparr>os_sysconf := (\<lambda>n. Failed 22)\<rparr>) tty_and_user
     = Inr [(Inr ''3'', True), (Inr ''!SYSCONF!'', False)]
   \<and> fragments darwin (world\<lparr>os_sysconf := (\<lambda>n. Failed 22), os_isatty := Failed 22\<rparr>) tty_and_user
     = Inr [(Inr ''!ISATTY!'', False), (Inr ''!NOGETPWRSIZEMAX!'', False)]"
  by (simp add: fragments_def tty_and_user_def model_defs world_def glibc_def darwin_def errname_def
        strlcpy_def strlcat_def strnlen_def Let_def)

section \<open>The tilde collapse\<close>

text \<open>A working directory that fits into the array.\<close>

lemma getcwd_Answer:
  "os_getcwd os = Answer d \<Longrightarrow> length d < n \<Longrightarrow>
   getcwd os n st = (Some (d @ replicate (n - length d) NUL), st)"
  by (simp add: getcwd_def)

subsection \<open>A home directory that is not empty\<close>

lemma NUL_tilde: "CHR ''~'' \<noteq> NUL"
  by (simp add: NUL_def)

lemma cstr_padded: "NUL \<notin> set d \<Longrightarrow> cstr (d @ replicate k NUL) = d"
  by (induction d) (auto simp: cstr_def takeWhile_replicate)

lemma cstr_terminated: "NUL \<notin> set d \<Longrightarrow> cstr (d @ NUL # t) = d"
  by (induction d) (auto simp: cstr_def)

lemma find_in_set: "List.find P xs = Some x \<Longrightarrow> x \<in> set xs"
  by (induction xs) (auto split: if_splits)

lemma find_upt_Some_0:
  "List.find P [0 ..< m] = Some 0 \<longleftrightarrow> 0 < m \<and> P 0"
proof (cases m)
  case 0
  then show ?thesis by simp
next
  case (Suc k)
  have "List.find P [Suc 0 ..< Suc k] \<noteq> Some 0"
    using find_in_set [of P "[Suc 0 ..< Suc k]" 0] by auto
  with Suc show ?thesis by (simp add: upt_conv_Cons del: upt_Suc)
qed

lemma strnstr_at_start:
  assumes "length big < len"
  shows "strnstr big little len = Some 0 \<longleftrightarrow> take (length little) big = little"
proof (cases "little = []")
  case True
  then show ?thesis by (simp add: strnstr_def)
next
  case False
  from assms have t: "take len big = big" by simp
  show ?thesis
  proof
    assume "strnstr big little len = Some 0"
    with False t show "take (length little) big = little"
      by (simp add: strnstr_def find_upt_Some_0)
  next
    assume a: "take (length little) big = little"
    then have "length (take (length little) big) = length little" by simp
    then have "length little \<le> length big" by simp
    with False t a show "strnstr big little len = Some 0"
      by (simp add: strnstr_def find_upt_Some_0)
  qed
qed

lemma tilde_loop_shift:
  assumes "L = home @ rest @ replicate z NUL" "0 < z" "length home = Suc n" "NUL \<notin> set rest"
  shows "\<lbrakk>k \<le> length rest; length B = length L; B ! 0 = CHR ''~''; \<forall>i<k. B ! Suc i = rest ! i;
          \<forall>i. Suc k \<le> i \<and> i < length L \<longrightarrow> B ! i = L ! i\<rbrakk>
         \<Longrightarrow> \<exists>R. tilde_loop (int n) (Suc k) B = Inr R \<and> length R = length L \<and> R ! 0 = CHR ''~'' \<and>
               (\<forall>i<length rest. R ! Suc i = rest ! i) \<and> R ! Suc (length rest) = NUL"
proof (induction "length rest - k" arbitrary: k B)
  case 0
  then have k: "k = length rest" by simp
  from assms have lenL: "length L = Suc n + length rest + z" by simp
  from assms k have "L ! (Suc k + n) = NUL"
    by (simp add: nth_append)
  with "0.prems" lenL assms(2) k have rd: "B ! (Suc k + n) = NUL" by simp
  from "0.prems" lenL assms(2) k rd show ?case
    by (subst tilde_loop.simps) (auto simp: nat_add_distrib)
next
  case (Suc j)
  then have lt: "k < length rest" by simp
  from assms have lenL: "length L = Suc n + length rest + z" by simp
  from assms lt have "L ! (Suc k + n) = rest ! k"
    by (simp add: nth_append)
  with Suc.prems lenL lt have rd: "B ! (Suc k + n) = rest ! k" by simp
  from assms(4) lt have nn: "rest ! k \<noteq> NUL" by (metis nth_mem)
  let ?B = "B[Suc k := rest ! k]"
  from Suc.prems lenL lt rd nn
  have step: "tilde_loop (int n) (Suc k) B = tilde_loop (int n) (Suc (Suc k)) ?B"
    by (subst tilde_loop.simps) (auto simp: nat_add_distrib)
  from Suc.hyps(2) have j: "j = length rest - Suc k" by simp
  have "\<exists>R. tilde_loop (int n) (Suc (Suc k)) ?B = Inr R \<and> length R = length L \<and> R ! 0 = CHR ''~'' \<and>
               (\<forall>i<length rest. R ! Suc i = rest ! i) \<and> R ! Suc (length rest) = NUL"
  proof (rule Suc.hyps(1) [OF j])
    show "Suc k \<le> length rest" using lt by simp
    show "length ?B = length L" using Suc.prems by simp
    show "?B ! 0 = CHR ''~''" using Suc.prems by simp
    show "\<forall>i<Suc k. ?B ! Suc i = rest ! i"
    proof (intro allI impI)
      fix i assume "i < Suc k"
      then consider "i < k" | "i = k" by linarith
      then show "?B ! Suc i = rest ! i"
      proof cases
        case 1
        with Suc.prems show ?thesis by simp
      next
        case 2
        from Suc.prems lenL lt have "Suc k < length B" by simp
        with 2 show ?thesis by simp
      qed
    qed
    show "\<forall>i. Suc (Suc k) \<le> i \<and> i < length L \<longrightarrow> ?B ! i = L ! i"
      using Suc.prems by (auto simp: nth_list_update)
  qed
  with step show ?case by simp
qed

lemma cstr_from_nth:
  assumes "R ! 0 = c" "\<forall>i<length rest. R ! Suc i = rest ! i" "R ! Suc (length rest) = NUL"
    "Suc (length rest) < length R" "c \<noteq> NUL" "NUL \<notin> set rest"
  shows "cstr R = c # rest"
proof -
  have "take (Suc (Suc (length rest))) R = (c # rest) @ [NUL]"
  proof (rule nth_equalityI)
    show "length (take (Suc (Suc (length rest))) R) = length ((c # rest) @ [NUL])"
      using assms(4) by simp
  next
    fix i assume "i < length (take (Suc (Suc (length rest))) R)"
    then have i: "i < Suc (Suc (length rest))" by simp
    show "take (Suc (Suc (length rest))) R ! i = ((c # rest) @ [NUL]) ! i"
    proof (cases i)
      case 0
      with assms(1) show ?thesis by simp
    next
      case (Suc i')
      with i assms(2,3) show ?thesis
        by (cases "i' < length rest") (auto simp: nth_append less_Suc_eq)
    qed
  qed
  then have "R = (c # rest) @ NUL # drop (Suc (Suc (length rest))) R"
    by (metis append_take_drop_id append_Cons append_Nil append_assoc)
  moreover from assms(5,6) have "NUL \<notin> set (c # rest)" by auto
  ultimately show ?thesis by (metis cstr_terminated)
qed

lemma tilde_collapse_prefix:
  assumes "home \<noteq> []" "NUL \<notin> set (home @ rest)" "length (home @ rest) < PATH_MAX pf"
  shows "\<exists>R. tilde_collapse pf home ((home @ rest) @ replicate (PATH_MAX pf - length (home @ rest)) NUL) = Inr R
             \<and> cstr R = CHR ''~'' # rest"
proof -
  let ?z = "PATH_MAX pf - length (home @ rest)"
  let ?L = "home @ rest @ replicate ?z NUL"
  let ?B = "?L[0 := CHR ''~'']"
  from assms(1) obtain n where n: "length home = Suc n" by (cases home) auto
  from assms(3) have z: "0 < ?z" by simp
  from assms(2) have nul: "NUL \<notin> set rest" by simp
  have "\<exists>R. tilde_loop (int n) (Suc 0) ?B = Inr R \<and> length R = length ?L \<and> R ! 0 = CHR ''~'' \<and>
               (\<forall>i<length rest. R ! Suc i = rest ! i) \<and> R ! Suc (length rest) = NUL"
  proof (rule tilde_loop_shift [OF refl z n nul])
    show "0 \<le> length rest" by simp
    show "length ?B = length ?L" by simp
    show "?B ! 0 = CHR ''~''" using n by (cases home) simp_all
    show "\<forall>i<0. ?B ! Suc i = rest ! i" by simp
    show "\<forall>i. Suc 0 \<le> i \<and> i < length ?L \<longrightarrow> ?B ! i = ?L ! i" by simp
  qed
  then obtain R where R: "tilde_loop (int n) (Suc 0) ?B = Inr R" "length R = length ?L"
    "R ! 0 = CHR ''~''" "\<forall>i<length rest. R ! Suc i = rest ! i" "R ! Suc (length rest) = NUL"
    by blast
  from R(2) n z have "Suc (length rest) < length R" by simp
  with R nul have c: "cstr R = CHR ''~'' # rest"
    by (intro cstr_from_nth) (simp_all add: NUL_tilde)
  have cs: "cstr ((home @ rest) @ replicate ?z NUL) = home @ rest"
    using assms(2) by (rule cstr_padded)
  have st: "strnstr (home @ rest) home (PATH_MAX pf) = Some 0"
    using assms(3) by (simp add: strnstr_at_start)
  from assms(3) n have sl: "int (strnlen home (PATH_MAX pf)) - 1 = int n"
    by (simp add: strnlen_def)
  from cs st sl R(1) n assms(1) have "tilde_collapse pf home ((home @ rest) @ replicate ?z NUL) = Inr R"
    by (simp add: tilde_collapse_def)
  with c show ?thesis by blast
qed

lemma tilde_collapse_no_prefix:
  assumes "take (length home) d \<noteq> home" "NUL \<notin> set d" "length d < PATH_MAX pf"
  shows "tilde_collapse pf home (d @ replicate k NUL) = Inr (d @ replicate k NUL)"
  using assms by (simp add: tilde_collapse_def cstr_padded strnstr_at_start)

lemma pwd_result_copy:
  "os_malloc os (brk st) \<Longrightarrow>
   pwd_result pf os False pwd ps st =
     Inr (ps\<lparr>needs_free := True, str := Heap (brk st)\<rparr>,
          st\<lparr>heap := (heap st)(brk st \<mapsto> strlcpy [] (cstr pwd) (PATH_MAX pf)), brk := Suc (brk st)\<rparr>)"
  by (simp add: pwd_result_def malloc_or_error_def malloc_def poke_def Let_def)

lemma tilde_collapse_text:
  assumes ne: "home \<noteq> []" and nul: "NUL \<notin> set d" and fits: "length d < PATH_MAX pf"
  shows "\<exists>R. tilde_collapse pf home (d @ replicate (PATH_MAX pf - length d) NUL) = Inr R
             \<and> cstr R = collapsed home d
             \<and> strlcpy [] (collapsed home d) (PATH_MAX pf) = collapsed home d"
proof -
  let ?arr = "d @ replicate (PATH_MAX pf - length d) NUL"
  have "\<exists>R. tilde_collapse pf home ?arr = Inr R \<and> cstr R = collapsed home d"
  proof (cases "take (length home) d = home")
    case True
    then have d: "d = home @ drop (length home) d"
      by (metis append_take_drop_id)
    from tilde_collapse_prefix [OF ne, of "drop (length home) d" pf] d nul fits True
    show ?thesis by (simp add: collapsed_def)
  next
    case False
    with tilde_collapse_no_prefix [OF False nul fits] nul show ?thesis
      by (simp add: cstr_padded collapsed_def)
  qed
  moreover have "length (collapsed home d) < PATH_MAX pf"
  proof (cases "take (length home) d = home")
    case True
    then have "length (take (length home) d) = length home" by simp
    then have "length home \<le> length d" by simp
    moreover from ne obtain n where "length home = Suc n" by (cases home) auto
    ultimately show ?thesis using True fits by (simp add: collapsed_def)
  next
    case False
    with fits show ?thesis by (simp add: collapsed_def)
  qed
  then have "strlcpy [] (collapsed home d) (PATH_MAX pf) = collapsed home d"
    by (simp add: strlcpy_def)
  ultimately show ?thesis by blast
qed

text \<open>
  The plain cwd resolver, for a home directory that is not empty, wherever
  \<open>get_home_dir\<close> took it from: the fragment is an owned buffer that holds
  the collapsed working directory.
\<close>

lemma get_pwd_tilde_with_home:
  assumes cwd: "os_getcwd os = Answer d" and fits: "length d < PATH_MAX pf" and nul: "NUL \<notin> set d"
    and hd: "get_home_dir pf os st = Inr (status, home, st2)"
    and ok: "status = HOME_DIR_NO_ALLOC \<or> status = HOME_DIR_ALLOC"
    and dh: "deref home st2 = Inr h" and ne: "h \<noteq> []"
    and fr: "(if status = HOME_DIR_ALLOC then free home st2 else Inr st2) = Inr st3"
    and m: "os_malloc os (brk st3)"
  shows "get_pwd_tilde pf os False ps st =
           Inr (ps\<lparr>needs_free := True, str := Heap (brk st3)\<rparr>,
                st3\<lparr>heap := (heap st3)(brk st3 \<mapsto> collapsed h d), brk := Suc (brk st3)\<rparr>)"
proof -
  from tilde_collapse_text [OF ne nul fits] obtain R where
    R: "tilde_collapse pf h (d @ replicate (PATH_MAX pf - length d) NUL) = Inr R"
    "cstr R = collapsed h d" "strlcpy [] (collapsed h d) (PATH_MAX pf) = collapsed h d"
    by blast
  from ok have "\<not> status < 0"
    by (auto simp: HOME_DIR_NO_ALLOC_def HOME_DIR_ALLOC_def)
  with R dh fr show ?thesis
    by (simp add: get_pwd_tilde_def getcwd_Answer [OF cwd fits] hd pwd_result_copy [OF m])
qed

lemma get_pwd_tilde_collapses:
  assumes cwd: "os_getcwd os = Answer d" and fits: "length d < PATH_MAX pf" and nul: "NUL \<notin> set d"
    and home: "os_getenv os ''HOME'' = Some home" and ne: "home \<noteq> []" and m: "os_malloc os (brk st)"
  shows "get_pwd_tilde pf os False ps st =
           Inr (ps\<lparr>needs_free := True, str := Heap (brk st)\<rparr>,
                st\<lparr>heap := (heap st)(brk st \<mapsto> collapsed home d), brk := Suc (brk st)\<rparr>)"
proof -
  have hd: "get_home_dir pf os st = Inr (HOME_DIR_NO_ALLOC, Static home, st)"
    using home by (simp add: get_home_dir_def getenv_def)
  show ?thesis
    by (rule get_pwd_tilde_with_home [OF cwd fits nul hd _ _ ne _ m])
       (simp_all add: deref_def HOME_DIR_NO_ALLOC_def HOME_DIR_ALLOC_def)
qed

lemma tilde_examples:
  "map_sum id (\<lambda>(ps, st). (deref (str ps) st, needs_free ps))
     (resolve darwin world \<lparr>type = PwdTrunc, arg = None\<rparr> fresh_slot startup) = Inr (Inr ''~/proj'', True)"
  "map_sum id (\<lambda>(ps, st). (deref (str ps) st, needs_free ps))
     (resolve darwin (world\<lparr>os_getcwd := Answer ''/etc''\<rparr>) \<lparr>type = PwdTrunc, arg = None\<rparr> fresh_slot startup)
     = Inr (Inr ''/etc'', True)"
  "map_sum id (\<lambda>(ps, st). (deref (str ps) st, needs_free ps))
     (resolve darwin (world\<lparr>os_getenv := (\<lambda>n. Some ''/home/al''), os_getcwd := Answer ''/home/alice''\<rparr>)
        \<lparr>type = PwdTrunc, arg = None\<rparr> fresh_slot startup)
     = Inr (Inr ''~ice'', True)"
  by (simp_all add: resolve_def get_pwd_tilde_collapses collapsed_def world_def darwin_def startup_def
        NUL_def deref_def)

subsection \<open>An empty home directory\<close>

text \<open>
  \<open>strnstr\<close> finds the empty string at the start of every string, so the
  block runs with \<open>len = -1\<close>: every step copies the character before
  \<open>match\<close>, which is never the terminator, and the loop leaves the array.
\<close>

lemma tilde_loop_runs_off:
  "0 < m \<Longrightarrow> m \<le> length pwd \<Longrightarrow> pwd ! (m - 1) \<noteq> NUL \<Longrightarrow> tilde_loop (-1) m pwd = Inl OutOfBounds"
proof (induction "length pwd - m" arbitrary: m pwd)
  case 0
  then show ?case by (subst tilde_loop.simps) (simp add: nat_diff_distrib')
next
  case (Suc k)
  then have lt: "m < length pwd" by simp
  let ?pwd = "pwd[m := pwd ! (m - 1)]"
  from Suc.prems lt have step: "tilde_loop (-1) m pwd = tilde_loop (-1) (Suc m) ?pwd"
    by (subst tilde_loop.simps) (simp add: nat_diff_distrib')
  from Suc.hyps(2) lt have k: "k = length ?pwd - Suc m" by simp
  from Suc.prems lt have "tilde_loop (-1) (Suc m) ?pwd = Inl OutOfBounds"
    by (intro Suc.hyps(1) [OF k]) simp_all
  with step show ?case by simp
qed

lemma strnstr_empty: "strnstr big [] len = Some 0"
  by (simp add: strnstr_def)

lemma tilde_collapse_empty_home: "tilde_collapse pf [] pwd = Inl OutOfBounds"
proof (cases pwd)
  case Nil
  then show ?thesis by (simp add: tilde_collapse_def strnstr_empty)
next
  case (Cons c cs)
  then have "tilde_loop (-1) 1 (pwd[0 := CHR ''~'']) = Inl OutOfBounds"
    by (intro tilde_loop_runs_off) (simp_all add: NUL_tilde)
  with Cons show ?thesis
    by (simp add: tilde_collapse_def strnstr_empty strnlen_def)
qed

lemma get_pwd_tilde_empty_home:
  assumes "os_getenv os ''HOME'' = Some []" "os_getcwd os = Answer d" "length d < PATH_MAX pf"
  shows "get_pwd_tilde pf os base ps st = Inl OutOfBounds"
  using assms
  by (simp add: get_pwd_tilde_def getcwd_Answer get_home_dir_def getenv_def HOME_DIR_NO_ALLOC_def
        deref_def tilde_collapse_empty_home)

text \<open>
  Claim C5: when the working directory begins with the home directory the
  plain cwd resolver replaces that prefix by \<open>~\<close>. With \<open>HOME\<close> set to
  the empty string and the working directory \<open>/etc\<close>, which begins with
  it, the resolver does not produce \<open>~/etc\<close>: the loop overruns the array
  \<open>pwd\<close>.
\<close>

theorem empty_home_overruns_pwd:
  "resolve darwin (world\<lparr>os_getenv := (\<lambda>n. if n = ''HOME'' then Some [] else None),
                        os_getcwd := Answer ''/etc''\<rparr>)
     \<lparr>type = PwdTrunc, arg = None\<rparr> fresh_slot startup = Inl OutOfBounds"
  by (simp add: resolve_def get_pwd_tilde_empty_home darwin_def)

text \<open>
  Claim C10: the collapse is a plain prefix match for every home directory
  \<open>h\<close> the working directory begins with. For the empty \<open>h\<close> the program
  with the configuration shipped in \<open>user_config.h\<close> stops in the overrun
  of the array \<open>pwd\<close> and prints nothing.
\<close>

theorem empty_home_aborts_shipped_prompt:
  "main darwin (world\<lparr>os_getenv := (\<lambda>n. if n = ''HOME'' then Some [] else None)\<rparr>) prompt
     = Inl OutOfBounds"
  by (simp add: main_def make_exploded_prompt_def prompt_def resolve_def get_pwd_tilde_empty_home
        get_username_def get_hostname_def malloc_def free_def poke_def malloc_or_error_def
        strndup_def sysconf_def gethostname_def getpwuid_r_def fresh_slot_def startup_def
        darwin_def world_def Let_def)

section \<open>Allocation failures\<close>

lemma sysconf_Answer: "os_sysconf os name = Answer n \<Longrightarrow> sysconf os name st = (n, st)"
  by (simp add: sysconf_def)






text \<open>
  The other resolvers store what \<open>malloc_or_error\<close> returns in
  \<open>ps->str\<close> (lines 190, 234, 282, 305 and 462): when their buffer is
  refused, the token \<open>!MALLOC!\<close> that \<open>malloc_or_error\<close> has just written
  is replaced by \<open>NULL\<close>.
\<close>

lemma get_parent_name_buffer_refused:
  "\<not> os_malloc os (brk st) \<Longrightarrow>
   get_parent_name pf os ps st =
     Inr (ps\<lparr>needs_free := False, str := Null\<rparr>, st\<lparr>errno := ENOMEM, brk := Suc (brk st)\<rparr>)"
  by (simp add: get_parent_name_def malloc_or_error_refused)


lemma get_hostname_buffer_refused:
  "os_sysconf os SC_HOST_NAME_MAX = Answer n \<Longrightarrow> n \<noteq> -1 \<Longrightarrow> \<not> os_malloc os (brk st) \<Longrightarrow>
   get_hostname pf os to_dot ps st =
     Inr (ps\<lparr>needs_free := False, str := Null\<rparr>, st\<lparr>errno := ENOMEM, brk := Suc (brk st)\<rparr>)"
  by (simp add: get_hostname_def sysconf_Answer malloc_or_error_refused)

lemma get_tty_basename_buffer_refused:
  "os_isatty os = Answer () \<Longrightarrow> os_ttyname os = Answer t \<Longrightarrow> \<not> os_malloc os (brk st) \<Longrightarrow>
   get_tty_basename pf os ps st =
     Inr (ps\<lparr>needs_free := False, str := Null\<rparr>, st\<lparr>errno := ENOMEM, brk := Suc (brk st)\<rparr>)"
  by (simp add: get_tty_basename_def isatty_def ttyname_def malloc_or_error_refused)







section \<open>Scratch buffers\<close>

text \<open>
  \<open>get_username\<close> releases its scratch buffer on every path: of the blocks
  allocated during the call only the returned string is live afterwards.
  \<open>get_home_dir\<close> never releases the scratch buffer it allocates.
\<close>

lemma get_username_releases_scratch:
  "get_username pf os ps st = Inr (ps', st') \<Longrightarrow> (\<And>b. brk st \<le> b \<Longrightarrow> heap st b = None) \<Longrightarrow>
   brk st \<le> a \<Longrightarrow> heap st' a = Some y \<Longrightarrow> str ps' = Heap a"
  unfolding get_username_def
  by (auto simp: prims Let_def split: splits)

lemma get_home_dir_keeps_scratch:
  assumes "os_getenv os ''HOME'' = None" and "os_sysconf os SC_GETPW_R_SIZE_MAX = Answer n" and "n \<noteq> -1"
    and "os_malloc os (brk st)" and "get_home_dir pf os st = Inr (status, home, st')"
  shows "heap st' (brk st) = Some [] \<and> home \<noteq> Heap (brk st) \<and> freed st' = freed st"
  using assms unfolding get_home_dir_def
  by (auto simp: prims Let_def split: splits)

text \<open>
  With \<open>HOME\<close> unset the plain cwd resolver returns with two blocks
  allocated: the scratch buffer of \<open>get_home_dir\<close> (block 0) and the
  fragment (block 2); the duplicated home directory (block 1) is released.
\<close>

lemma pwd_with_passwd_home:
  "map_sum id (\<lambda>(ps, st). (str ps, needs_free ps, heap st 0, heap st 1, heap st 2, freed st))
     (resolve darwin (world\<lparr>os_getenv := (\<lambda>n. None)\<rparr>) \<lparr>type = PwdTrunc, arg = None\<rparr>
        fresh_slot startup)
   = Inr (Heap 2, True, Some [], None, Some ''~/proj'', [1])"
proof -
  let ?os = "world\<lparr>os_getenv := (\<lambda>n. None)\<rparr>"
  let ?st2 = "startup\<lparr>heap := [0 \<mapsto> [], Suc 0 \<mapsto> ''/home/alice''], brk := 2\<rparr>"
  let ?st3 = "startup\<lparr>heap := [0 \<mapsto> []], brk := 2, freed := [1]\<rparr>"
  have cwd: "os_getcwd ?os = Answer ''/home/alice/proj''" by (simp add: world_def)
  have fits: "length ''/home/alice/proj'' < PATH_MAX darwin" by (simp add: darwin_def)
  have nul: "NUL \<notin> set ''/home/alice/proj''" by (simp add: NUL_def)
  have hd: "get_home_dir darwin ?os startup = Inr (HOME_DIR_ALLOC, Heap 1, ?st2)"
    by (simp add: model_defs world_def darwin_def HOME_DIR_ALLOC_def numeral_2_eq_2)
  have dh: "deref (Heap 1) ?st2 = Inr ''/home/alice''" by (simp add: deref_def)
  have fr: "(if HOME_DIR_ALLOC = HOME_DIR_ALLOC then free (Heap 1) ?st2 else Inr ?st2) = Inr ?st3"
    by (simp add: free_def startup_def fun_upd_twist)
  have m: "os_malloc ?os (brk ?st3)" by (simp add: world_def)
  from get_pwd_tilde_with_home [OF cwd fits nul hd _ dh _ fr m, of fresh_slot]
  show ?thesis
    by (simp add: resolve_def collapsed_def startup_def fresh_slot_def)
qed

text \<open>
  Claim C6: every scratch buffer is released before its resolver returns,
  in particular the one of \<open>get_home_dir\<close> on the success path, the
  lookup-error path and the path with no matching record, so that at most
  the returned fragment is outstanding. With \<open>HOME\<close> unset, on each of the
  three paths the scratch buffer of \<open>get_home_dir\<close> (block 0) is still
  allocated when the function returns and nothing has been released, and
  the cwd resolver returns with the scratch buffer and the fragment
  outstanding.
\<close>

theorem get_home_dir_scratch_outlives:
  "map_sum id (\<lambda>(status, home, st). (status, home, heap st 0, heap st 1, freed st))
       (get_home_dir darwin (world\<lparr>os_getenv := (\<lambda>n. None)\<rparr>) startup)
     = Inr (HOME_DIR_ALLOC, Heap 1, Some [], Some ''/home/alice'', [])
   \<and> map_sum id (\<lambda>(status, home, st). (status, home, heap st 0, freed st))
       (get_home_dir darwin
          (world\<lparr>os_getenv := (\<lambda>n. None), os_getpwuid_r := (\<lambda>u n. PwError 5 (Some 5))\<rparr>) startup)
     = Inr (HOME_DIR_FAILED_MESSAGE_NO_ALLOC, Static ''!GETPWUIDR!'', Some [], [])
   \<and> map_sum id (\<lambda>(status, home, st). (status, home, heap st 0, freed st))
       (get_home_dir darwin
          (world\<lparr>os_getenv := (\<lambda>n. None), os_getpwuid_r := (\<lambda>u n. PwNotFound)\<rparr>) startup)
     = Inr (HOME_DIR_NO_ALLOC, Static ''!USERNOTFOUND!'', Some [], [])
   \<and> map_sum id (\<lambda>(ps, st). (str ps, needs_free ps, heap st 0, heap st 1, heap st 2, freed st))
       (resolve darwin (world\<lparr>os_getenv := (\<lambda>n. None)\<rparr>) \<lparr>type = PwdTrunc, arg = None\<rparr>
          fresh_slot startup)
     = Inr (Heap 2, True, Some [], None, Some ''~/proj'', [1])"
  using pwd_with_passwd_home
  by (simp add: model_defs world_def darwin_def HOME_DIR_ALLOC_def HOME_DIR_NO_ALLOC_def
        HOME_DIR_FAILED_MESSAGE_NO_ALLOC_def)

section \<open>Runs that break the output contract\<close>

text \<open>
  Claim C8: for every catalog the program writes the texts of the resolved
  fragments, concatenated in catalog order, and then one newline. Two runs
  over a literal followed by one element. In the first the buffer of the
  host name is refused: \<open>get_hostname\<close> stores the \<open>NULL\<close> that
  \<open>malloc_or_error\<close> returns over the token \<open>!MALLOC!\<close> (line 234), so the
  resolved sequence has the length of the catalog but its second fragment
  has no text, and the program hands \<open>NULL\<close> to \<open>printf\<close> (line 577), which
  is undefined, instead of writing the line. In the second \<open>HOME\<close> is the
  empty string: the program stops in the tilde loop before it writes
  anything.
\<close>

theorem output_contract_broken:
  "fragments darwin (world\<lparr>os_malloc := (\<lambda>k. k \<noteq> 1)\<rparr>)
       [\<lparr>type = StringLiteral, arg = Some ''on ''\<rparr>, \<lparr>type = FullHostname, arg = None\<rparr>]
     = Inr [(Inr ''on '', False), (Inl NullDeref, False)]
   \<and> main darwin (world\<lparr>os_malloc := (\<lambda>k. k \<noteq> 1)\<rparr>)
       [\<lparr>type = StringLiteral, arg = Some ''on ''\<rparr>, \<lparr>type = FullHostname, arg = None\<rparr>]
     = Inl NullDeref
   \<and> main darwin (world\<lparr>os_getenv := (\<lambda>n. if n = ''HOME'' then Some [] else None)\<rparr>)
       [\<lparr>type = StringLiteral, arg = Some ''in ''\<rparr>, \<lparr>type = PwdTrunc, arg = None\<rparr>]
     = Inl OutOfBounds"
  by (simp add: fragments_def main_def make_exploded_prompt_def resolve_def get_hostname_def
        get_pwd_tilde_empty_home malloc_def malloc_or_error_def sysconf_def fresh_slot_def
        startup_def deref_def print_loop.simps darwin_def world_def Let_def)

end
